theory Spec2Isabelle
  imports Main
begin

section \<open>Data model (types/chess.ts)\<close>

datatype PieceType = Pawn | Rook | Knight | Bishop | Queen | King

datatype PieceColor = White | Black

text \<open>A square is the pair \<open>[row, col]\<close>. The source type is \<open>[number, number]\<close>; the
  coordinates are modelled as unbounded integers, so negative and too large indices are
  part of the model. JavaScript numbers are doubles: their arithmetic is that of the
  integers below 2^53 in absolute value, far beyond any index of a board.\<close>

type_synonym Square = "int \<times> int"

record ChessPiece =
  type :: PieceType
  color :: PieceColor

record Move =
  fromSq :: Square
  toSq :: Square
  piece :: ChessPiece
  capturedPiece :: "ChessPiece option"
  moveNotation :: string
  timestamp :: int
  isCastling :: bool
  isEnPassant :: bool
  isPromotion :: bool
  promotedTo :: "PieceType option"

record Player =
  name :: string
  playerColor :: PieceColor
  rating :: "int option"
  timeRemaining :: "int option"

record Players =
  whitePlayer :: Player
  blackPlayer :: Player

record CapturedPieces =
  white :: "ChessPiece list"
  black :: "ChessPiece list"

record CastlingRights =
  whiteKingSide :: bool
  whiteQueenSide :: bool
  blackKingSide :: bool
  blackQueenSide :: bool

record PromotionPending =
  square :: Square
  pendingColor :: PieceColor

text \<open>The board is an array of row arrays. \<open>None\<close> stands for every falsy content of a
  cell (\<open>null\<close>, a hole, \<open>undefined\<close>): the source only ever tests a cell for truthiness.\<close>

type_synonym Board = "ChessPiece option list list"

record GameState =
  board :: Board
  currentPlayer :: PieceColor
  selectedSquare :: "Square option"
  validMoves :: "Square list"
  isCheck :: bool
  isCheckmate :: bool
  gameOver :: bool
  moves :: "Move list"
  capturedPieces :: CapturedPieces
  players :: Players
  castlingRights :: CastlingRights
  enPassantTarget :: "Square option"
  promotionPending :: "PromotionPending option"

section \<open>Outcomes of evaluation\<close>

text \<open>\<open>TypeError\<close> is what JavaScript throws when a property of \<open>undefined\<close> is read or
  written, here \<open>board[r][c]\<close> with no row \<open>r\<close>. \<open>NonIndexWrite\<close> marks an assignment
  \<open>row[c] = v\<close> with a negative \<open>c\<close>: JavaScript then attaches a property that is not an
  array element, which a list cannot hold, so the model stops there.\<close>

datatype jsError = TypeError | NonIndexWrite

text \<open>A computation either does not return (\<open>None\<close>), throws (\<open>Some (Inl e)\<close>) or returns a
  value (\<open>Some (Inr v)\<close>).\<close>

type_synonym 'a js = "(jsError + 'a) option"

abbreviation returns :: "'a \<Rightarrow> 'a js" where
  "returns v \<equiv> Some (Inr v)"

abbreviation throws :: "jsError \<Rightarrow> 'a js" where
  "throws e \<equiv> Some (Inl e)"

definition andThen :: "'a js \<Rightarrow> ('a \<Rightarrow> 'b js) \<Rightarrow> 'b js" where
  "andThen m f = (case m of None \<Rightarrow> None | Some (Inl e) \<Rightarrow> Some (Inl e) | Some (Inr v) \<Rightarrow> f v)"

section \<open>Board access\<close>

text \<open>\<open>board[r][c]\<close>: a missing row makes the second index throw, a missing column reads
  \<open>undefined\<close>.\<close>

definition cell :: "Board \<Rightarrow> int \<Rightarrow> int \<Rightarrow> jsError + ChessPiece option" where
  "cell b r c =
     (if 0 \<le> r \<and> r < int (length b)
      then Inr (if 0 \<le> c \<and> c < int (length (b ! nat r)) then b ! nat r ! nat c else None)
      else Inl TypeError)"

text \<open>The truth value of \<open>board[r][c]\<close> in a condition.\<close>

definition occupied :: "Board \<Rightarrow> int \<Rightarrow> int \<Rightarrow> bool js" where
  "occupied b r c = (case cell b r c of Inl e \<Rightarrow> throws e | Inr p \<Rightarrow> returns (p \<noteq> None))"

text \<open>\<open>row[c] = v\<close> on an array: inside the array the element is replaced, beyond its end
  the array grows (the holes in between read as \<open>undefined\<close>).\<close>

definition jsSet :: "'a option list \<Rightarrow> nat \<Rightarrow> 'a option \<Rightarrow> 'a option list" where
  "jsSet xs i v =
     (if i < length xs then xs[i := v] else xs @ replicate (i - length xs) None @ [v])"

text \<open>\<open>board[r][c] = v\<close>.\<close>

definition setCell :: "Board \<Rightarrow> int \<Rightarrow> int \<Rightarrow> ChessPiece option \<Rightarrow> Board js" where
  "setCell b r c v =
     (if 0 \<le> r \<and> r < int (length b)
      then (if 0 \<le> c then returns (b[nat r := jsSet (b ! nat r) (nat c) v])
            else throws NonIndexWrite)
      else throws TypeError)"

text \<open>\<open>board[r][c]\<close> read into a variable.\<close>

definition readCell :: "Board \<Rightarrow> int \<Rightarrow> int \<Rightarrow> ChessPiece option js" where
  "readCell b r c = Some (cell b r c)"

section \<open>Initial position (utils/chessLogic.ts)\<close>

definition pieceOrder :: "PieceType list" where
  "pieceOrder = [Rook, Knight, Bishop, Queen, King, Bishop, Knight, Rook]"

definition createInitialBoard :: Board where
  "createInitialBoard =
     (let empty = replicate 8 (replicate 8 None);
          pawns = foldl (\<lambda>b col.
                    b[1 := (b ! 1)[col := Some \<lparr>type = Pawn, color = Black\<rparr>],
                      6 := (b ! 6)[col := Some \<lparr>type = Pawn, color = White\<rparr>]])
                    empty [0 ..< 8]
      in foldl (\<lambda>b col.
                    b[0 := (b ! 0)[col := Some \<lparr>type = pieceOrder ! col, color = Black\<rparr>],
                      7 := (b ! 7)[col := Some \<lparr>type = pieceOrder ! col, color = White\<rparr>]])
                    pawns [0 ..< 8])"

definition createInitialGameState :: GameState where
  "createInitialGameState =
     \<lparr>board = createInitialBoard,
      currentPlayer = White,
      selectedSquare = None,
      validMoves = [],
      isCheck = False,
      isCheckmate = False,
      gameOver = False,
      moves = [],
      capturedPieces = \<lparr>white = [], black = []\<rparr>,
      players = \<lparr>whitePlayer = \<lparr>name = ''White Player'', playerColor = White,
                                  rating = Some 1200, timeRemaining = None\<rparr>,
                 blackPlayer = \<lparr>name = ''Black Player'', playerColor = Black,
                                  rating = Some 1200, timeRemaining = None\<rparr>\<rparr>,
      castlingRights = \<lparr>whiteKingSide = True, whiteQueenSide = True,
                        blackKingSide = True, blackQueenSide = True\<rparr>,
      enPassantTarget = None,
      promotionPending = None\<rparr>"

fun isSquareOnBoard :: "Square \<Rightarrow> bool" where
  "isSquareOnBoard (row, col) = (row \<ge> 0 \<and> row < 8 \<and> col \<ge> 0 \<and> col < 8)"

definition isSameSquare :: "Square \<Rightarrow> Square \<Rightarrow> bool" where
  "isSameSquare square1 square2 = (fst square1 = fst square2 \<and> snd square1 = snd square2)"

section \<open>Move validation (utils/chessLogic.ts)\<close>

text \<open>The path loop of \<open>isValidRookMove\<close> and of \<open>isValidBishopMove\<close> (the same text in
  both): walk from the current square in steps of the direction until the destination is
  met, and fail on the first occupied square.\<close>

partial_function (option) pathClear ::
  "Board \<Rightarrow> int \<Rightarrow> int \<Rightarrow> int \<Rightarrow> int \<Rightarrow> int \<Rightarrow> int \<Rightarrow> bool js" where
  "pathClear b currentRow currentCol rowDir colDir toRow toCol =
     (if currentRow \<noteq> toRow \<or> currentCol \<noteq> toCol
      then (case cell b currentRow currentCol of
              Inl e \<Rightarrow> throws e
            | Inr (Some p) \<Rightarrow> returns False
            | Inr None \<Rightarrow>
                pathClear b (currentRow + rowDir) (currentCol + colDir) rowDir colDir toRow toCol)
      else returns True)"

declare pathClear.simps [code]

fun isValidPawnMove ::
  "Square \<Rightarrow> Square \<Rightarrow> PieceColor \<Rightarrow> Board \<Rightarrow> GameState option \<Rightarrow> bool js" where
  "isValidPawnMove (fromRow, fromCol) (toRow, toCol) pieceColor b gameState =
     (let direction = (if pieceColor = White then - 1 else 1);
          startRow = (if pieceColor = White then 6 else 1)
      in andThen
           (if fromCol = toCol
            then andThen
                   (if toRow = fromRow + direction
                    then andThen (occupied b toRow toCol) (\<lambda>occ. returns (\<not> occ))
                    else returns False)
                   (\<lambda>single.
                      if single then returns True
                      else if fromRow = startRow \<and> toRow = fromRow + 2 * direction
                      then andThen (occupied b toRow toCol) (\<lambda>occ. returns (\<not> occ))
                      else returns False)
            else returns False)
           (\<lambda>forward.
              if forward then returns True
              else if \<bar>fromCol - toCol\<bar> = 1 \<and> toRow = fromRow + direction
              then andThen (occupied b toRow toCol)
                     (\<lambda>occ.
                        if occ then returns True
                        else returns
                          (case gameState of
                             None \<Rightarrow> False
                           | Some gs \<Rightarrow>
                               (case enPassantTarget gs of
                                  None \<Rightarrow> False
                                | Some target \<Rightarrow> isSameSquare (toRow, toCol) target)))
              else returns False))"

text \<open>The direction \<open>(toRow - fromRow) / Math.abs(toRow - fromRow)\<close>: the division is
  exact on integers whenever the divisor is not zero.\<close>

definition unitDir :: "int \<Rightarrow> int \<Rightarrow> int" where
  "unitDir fromX toX = (toX - fromX) div \<bar>toX - fromX\<bar>"

fun isValidRookMove :: "Square \<Rightarrow> Square \<Rightarrow> Board \<Rightarrow> bool js" where
  "isValidRookMove (fromRow, fromCol) (toRow, toCol) b =
     (if fromRow \<noteq> toRow \<and> fromCol \<noteq> toCol then returns False
      else
        (let rowDir = (if fromRow = toRow then 0 else unitDir fromRow toRow);
             colDir = (if fromCol = toCol then 0 else unitDir fromCol toCol)
         in pathClear b (fromRow + rowDir) (fromCol + colDir) rowDir colDir toRow toCol))"

fun isValidKnightMove :: "Square \<Rightarrow> Square \<Rightarrow> bool" where
  "isValidKnightMove (fromRow, fromCol) (toRow, toCol) =
     (let rowDiff = \<bar>fromRow - toRow\<bar>; colDiff = \<bar>fromCol - toCol\<bar>
      in (rowDiff = 2 \<and> colDiff = 1) \<or> (rowDiff = 1 \<and> colDiff = 2))"

text \<open>When origin and destination coincide the two directions are \<open>0 / 0 = NaN\<close>; the loop
  condition \<open>NaN !== toRow\<close> holds and the first read \<open>board[NaN][NaN]\<close> throws.\<close>

fun isValidBishopMove :: "Square \<Rightarrow> Square \<Rightarrow> Board \<Rightarrow> bool js" where
  "isValidBishopMove (fromRow, fromCol) (toRow, toCol) b =
     (if \<bar>fromRow - toRow\<bar> \<noteq> \<bar>fromCol - toCol\<bar> then returns False
      else if toRow = fromRow then throws TypeError
      else
        (let rowDir = unitDir fromRow toRow;
             colDir = unitDir fromCol toCol
         in pathClear b (fromRow + rowDir) (fromCol + colDir) rowDir colDir toRow toCol))"

definition isValidQueenMove :: "Square \<Rightarrow> Square \<Rightarrow> Board \<Rightarrow> bool js" where
  "isValidQueenMove from to b =
     andThen (isValidRookMove from to b)
       (\<lambda>straight. if straight then returns True else isValidBishopMove from to b)"

text \<open>The rook test of castling: \<open>!rook || rook.type !== 'rook' || rook.color !== color\<close>.\<close>

definition rookInPosition :: "Board \<Rightarrow> int \<Rightarrow> int \<Rightarrow> PieceColor \<Rightarrow> bool js" where
  "rookInPosition b kingRow col c =
     (case cell b kingRow col of
        Inl e \<Rightarrow> throws e
      | Inr None \<Rightarrow> returns False
      | Inr (Some rook) \<Rightarrow> returns (type rook = Rook \<and> color rook = c))"

fun isValidKingMove :: "Square \<Rightarrow> Square \<Rightarrow> Board \<Rightarrow> GameState option \<Rightarrow> bool js" where
  "isValidKingMove (fromRow, fromCol) (toRow, toCol) b gameState =
     (let rowDiff = \<bar>fromRow - toRow\<bar>; colDiff = \<bar>fromCol - toCol\<bar>
      in if rowDiff \<le> 1 \<and> colDiff \<le> 1 \<and> rowDiff + colDiff > 0 then returns True
         else
           (case gameState of
              None \<Rightarrow> returns False
            | Some gs \<Rightarrow>
                if rowDiff = 0 \<and> colDiff = 2
                then (case cell b fromRow fromCol of
                        Inl e \<Rightarrow> throws e
                      | Inr None \<Rightarrow> returns False
                      | Inr (Some p) \<Rightarrow>
                          if type p \<noteq> King then returns False
                          else
                            (let c = color p; kingRow = (if c = White then 7 else 0)
                             in if fromRow \<noteq> kingRow \<or> fromCol \<noteq> 4 then returns False
                                else if toCol = 6
                                then
                                  (if \<not> (if c = White then whiteKingSide (castlingRights gs)
                                          else blackKingSide (castlingRights gs))
                                   then returns False
                                   else andThen (occupied b kingRow 5) (\<lambda>o5.
                                          if o5 then returns False
                                          else andThen (occupied b kingRow 6) (\<lambda>o6.
                                            if o6 then returns False
                                            else rookInPosition b kingRow 7 c)))
                                else if toCol = 2
                                then
                                  (if \<not> (if c = White then whiteQueenSide (castlingRights gs)
                                          else blackQueenSide (castlingRights gs))
                                   then returns False
                                   else andThen (occupied b kingRow 1) (\<lambda>o1.
                                          if o1 then returns False
                                          else andThen (occupied b kingRow 2) (\<lambda>o2.
                                            if o2 then returns False
                                            else andThen (occupied b kingRow 3) (\<lambda>o3.
                                              if o3 then returns False
                                              else rookInPosition b kingRow 0 c))))
                                else returns False))
                else returns False))"

definition isValidMove :: "Square \<Rightarrow> Square \<Rightarrow> Board \<Rightarrow> GameState option \<Rightarrow> bool js" where
  "isValidMove from to b gameState =
     (case cell b (fst from) (snd from) of
        Inl e \<Rightarrow> throws e
      | Inr None \<Rightarrow> returns False
      | Inr (Some p) \<Rightarrow>
          (case cell b (fst to) (snd to) of
             Inl e \<Rightarrow> throws e
           | Inr targetPiece \<Rightarrow>
               if (case targetPiece of None \<Rightarrow> False | Some t \<Rightarrow> color t = color p)
               then returns False
               else
                 (case type p of
                    Pawn \<Rightarrow> isValidPawnMove from to (color p) b gameState
                  | Rook \<Rightarrow> isValidRookMove from to b
                  | Knight \<Rightarrow> returns (isValidKnightMove from to)
                  | Bishop \<Rightarrow> isValidBishopMove from to b
                  | Queen \<Rightarrow> isValidQueenMove from to b
                  | King \<Rightarrow> isValidKingMove from to b gameState)))"


section \<open>Move notation (utils/notation.ts)\<close>

definition FILES :: "string list" where
  "FILES = [''a'', ''b'', ''c'', ''d'', ''e'', ''f'', ''g'', ''h'']"

definition RANKS :: "string list" where
  "RANKS = [''8'', ''7'', ''6'', ''5'', ''4'', ''3'', ''2'', ''1'']"

text \<open>The text that \<open>xs[i]\<close> contributes to a string: the element, or the word
  \<open>undefined\<close> when there is none.\<close>

definition jsIndexText :: "string list \<Rightarrow> int \<Rightarrow> string" where
  "jsIndexText xs i = (if 0 \<le> i \<and> i < int (length xs) then xs ! nat i else ''undefined'')"

fun squareToNotation :: "Square \<Rightarrow> string" where
  "squareToNotation (row, col) = jsIndexText FILES col @ jsIndexText RANKS row"

text \<open>The string values of the type \<open>PieceType\<close>.\<close>

fun typeName :: "PieceType \<Rightarrow> string" where
  "typeName Pawn = ''pawn''"
| "typeName Rook = ''rook''"
| "typeName Knight = ''knight''"
| "typeName Bishop = ''bishop''"
| "typeName Queen = ''queen''"
| "typeName King = ''king''"

definition charAt0 :: "string \<Rightarrow> string" where
  "charAt0 s = take 1 s"

text \<open>\<open>toUpperCase\<close> on the ASCII letters, the only characters it meets here.\<close>

definition toUpperChar :: "char \<Rightarrow> char" where
  "toUpperChar ch =
     (if 97 \<le> (of_char ch :: nat) \<and> (of_char ch :: nat) \<le> 122
      then char_of ((of_char ch :: nat) - 32) else ch)"

definition toUpperCase :: "string \<Rightarrow> string" where
  "toUpperCase s = map toUpperChar s"

definition generateMoveNotation ::
  "Square \<Rightarrow> Square \<Rightarrow> ChessPiece \<Rightarrow> ChessPiece option \<Rightarrow> bool \<Rightarrow> bool \<Rightarrow> bool \<Rightarrow>
     string option \<Rightarrow> string" where
  "generateMoveNotation from to movingPiece captured castling enPassant promotion promoted =
     (if castling then (if snd to > snd from then ''O-O'' else ''O-O-O'')
      else
        (let toNotation = squareToNotation to;
             n0 = [];
             n1 = (if type movingPiece \<noteq> Pawn
                   then n0 @ toUpperCase (charAt0 (typeName (type movingPiece))) else n0);
             n2 = (if captured \<noteq> None \<or> enPassant
                   then (if type movingPiece = Pawn then n1 @ jsIndexText FILES (snd from) else n1)
                        @ ''x''
                   else n1);
             n3 = n2 @ toNotation;
             n4 = (if enPassant then n3 @ '' e.p.'' else n3)
         in (case promoted of
               Some t \<Rightarrow> if promotion \<and> t \<noteq> [] then n4 @ ''='' @ toUpperCase (charAt0 t) else n4
             | None \<Rightarrow> n4)))"

section \<open>Special moves (utils/specialMoves.ts)\<close>

fun isCastlingMove :: "Square \<Rightarrow> Square \<Rightarrow> ChessPiece \<Rightarrow> bool" where
  "isCastlingMove (fromRow, fromCol) (toRow, toCol) p =
     (if type p \<noteq> King then False else fromRow = toRow \<and> \<bar>fromCol - toCol\<bar> = 2)"

fun isEnPassantMove :: "Square \<Rightarrow> Square \<Rightarrow> ChessPiece \<Rightarrow> GameState \<Rightarrow> bool" where
  "isEnPassantMove (fromRow, fromCol) (toRow, toCol) p gs =
     (if type p \<noteq> Pawn then False
      else (case enPassantTarget gs of
              None \<Rightarrow> False
            | Some target \<Rightarrow>
                (let direction = (if color p = White then - 1 else 1)
                 in \<bar>fromCol - toCol\<bar> = 1 \<and> toRow = fromRow + direction
                    \<and> isSameSquare (toRow, toCol) target)))"

fun isPromotionMove :: "Square \<Rightarrow> Square \<Rightarrow> ChessPiece \<Rightarrow> bool" where
  "isPromotionMove from (toRow, toCol) p =
     (if type p \<noteq> Pawn then False
      else (color p = White \<and> toRow = 0) \<or> (color p = Black \<and> toRow = 7))"

text \<open>\<open>board.map(row => [...row])\<close> copies the rows; on values the copy is the board
  itself.\<close>

fun executeCastling :: "Board \<Rightarrow> Square \<Rightarrow> Square \<Rightarrow> Board js" where
  "executeCastling b (fromRow, fromCol) (toRow, toCol) =
     andThen (readCell b fromRow fromCol) (\<lambda>king.
       if king = None then returns b
       else
         andThen (setCell b fromRow fromCol None) (\<lambda>b1.
         andThen (setCell b1 fromRow toCol king) (\<lambda>b2.
           if toCol = 6
           then andThen (readCell b2 fromRow 7) (\<lambda>rook.
                andThen (setCell b2 fromRow 7 None) (\<lambda>b3.
                  setCell b3 fromRow 5 rook))
           else if toCol = 2
           then andThen (readCell b2 fromRow 0) (\<lambda>rook.
                andThen (setCell b2 fromRow 0 None) (\<lambda>b3.
                  setCell b3 fromRow 3 rook))
           else returns b2)))"

fun executeEnPassant ::
  "Board \<Rightarrow> Square \<Rightarrow> Square \<Rightarrow> ChessPiece \<Rightarrow> (Board \<times> ChessPiece option) js" where
  "executeEnPassant b (fromRow, fromCol) (toRow, toCol) p =
     andThen (setCell b fromRow fromCol None) (\<lambda>b1.
     andThen (setCell b1 toRow toCol (Some p)) (\<lambda>b2.
       (let capturedPawnRow = (if color p = White then toRow + 1 else toRow - 1)
        in andThen (readCell b2 capturedPawnRow toCol) (\<lambda>captured.
           andThen (setCell b2 capturedPawnRow toCol None) (\<lambda>b3.
             returns (b3, captured))))))"

definition updateCastlingRights :: "GameState \<Rightarrow> Move \<Rightarrow> CastlingRights" where
  "updateCastlingRights gs move =
     (let newRights = castlingRights gs;
          fromRow = fst (fromSq move);
          fromCol = snd (fromSq move);
          p = piece move;
          afterKing =
            (if type p = King
             then (if color p = White
                   then newRights\<lparr>whiteKingSide := False, whiteQueenSide := False\<rparr>
                   else newRights\<lparr>blackKingSide := False, blackQueenSide := False\<rparr>)
             else newRights)
      in if type p = Rook
         then (if color p = White \<and> fromRow = 7
               then (let q = (if fromCol = 0 then afterKing\<lparr>whiteQueenSide := False\<rparr>
                              else afterKing)
                     in if fromCol = 7 then q\<lparr>whiteKingSide := False\<rparr> else q)
               else if color p = Black \<and> fromRow = 0
               then (let q = (if fromCol = 0 then afterKing\<lparr>blackQueenSide := False\<rparr>
                              else afterKing)
                     in if fromCol = 7 then q\<lparr>blackKingSide := False\<rparr> else q)
               else afterKing)
         else afterKing)"

definition updateEnPassantTarget :: "Move \<Rightarrow> Square option" where
  "updateEnPassantTarget move =
     (let fromRow = fst (fromSq move);
          toRow = fst (toSq move);
          toCol = snd (toSq move);
          p = piece move
      in if type p = Pawn \<and> \<bar>fromRow - toRow\<bar> = 2
         then (let targetRow = (if color p = White then fromRow - 1 else fromRow + 1)
               in Some (targetRow, toCol))
         else None)"

section \<open>Game state transitions (ChessBoardWithCoordinates.tsx, hooks/useChessGame.ts)\<close>

text \<open>\<open>executeMove\<close> is written twice in the source, in the board component and in the
  hook, with the same body; the hook reads the player and the history from the state it
  replaces, which is the state the body was computed from. The time of \<open>Date.now()\<close> is
  the argument \<open>now\<close>.\<close>

definition executeMove ::
  "GameState \<Rightarrow> Square \<Rightarrow> Square \<Rightarrow> ChessPiece \<Rightarrow> PieceType option \<Rightarrow> int \<Rightarrow> GameState js" where
  "executeMove gs from to movingPiece promoted now =
     andThen (readCell (board gs) (fst to) (snd to)) (\<lambda>target.
       (let castling = isCastlingMove from to movingPiece;
            enPassant = isEnPassantMove from to movingPiece gs
        in andThen
             (if castling
              then andThen (executeCastling (board gs) from to) (\<lambda>nb. returns (nb, target))
              else if enPassant
              then executeEnPassant (board gs) from to movingPiece
              else
                andThen (setCell (board gs) (fst from) (snd from) None) (\<lambda>b1.
                andThen (setCell b1 (fst to) (snd to) (Some movingPiece)) (\<lambda>b2.
                  (case promoted of
                     None \<Rightarrow> returns (b2, target)
                   | Some t \<Rightarrow>
                       andThen
                         (setCell b2 (fst to) (snd to)
                            (Some \<lparr>type = t, color = color movingPiece\<rparr>))
                         (\<lambda>b3. returns (b3, target))))))
             (\<lambda>(newBoard, captured).
                (let newCapturedPieces =
                       (case captured of
                          None \<Rightarrow> capturedPieces gs
                        | Some cp \<Rightarrow>
                            if color cp = White
                            then (capturedPieces gs)\<lparr>black := black (capturedPieces gs) @ [cp]\<rparr>
                            else (capturedPieces gs)\<lparr>white := white (capturedPieces gs) @ [cp]\<rparr>);
                     newMove =
                       \<lparr>fromSq = from,
                        toSq = to,
                        piece = movingPiece,
                        capturedPiece = captured,
                        moveNotation =
                          generateMoveNotation from to movingPiece captured castling enPassant
                            (promoted \<noteq> None) (map_option typeName promoted),
                        timestamp = now,
                        isCastling = castling,
                        isEnPassant = enPassant,
                        isPromotion = (promoted \<noteq> None),
                        promotedTo = promoted\<rparr>;
                     newCastlingRights = updateCastlingRights gs newMove;
                     newEnPassantTarget = updateEnPassantTarget newMove
                 in returns
                      (gs\<lparr>board := newBoard,
                          currentPlayer := (if currentPlayer gs = White then Black else White),
                          selectedSquare := None,
                          validMoves := [],
                          moves := moves gs @ [newMove],
                          capturedPieces := newCapturedPieces,
                          castlingRights := newCastlingRights,
                          enPassantTarget := newEnPassantTarget,
                          promotionPending := None\<rparr>)))))"

text \<open>The destinations tried by \<open>getValidMovesForPiece\<close>, rows outside, columns inside.\<close>

definition allSquares :: "Square list" where
  "allSquares = concat (map (\<lambda>row. map (\<lambda>col. (row, col)) [0 .. 7]) [0 .. 7])"

fun collectValid :: "GameState \<Rightarrow> Square \<Rightarrow> Board \<Rightarrow> Square list \<Rightarrow> Square list js" where
  "collectValid gs from b [] = returns []"
| "collectValid gs from b (to # rest) =
     andThen (isValidMove from to b (Some gs)) (\<lambda>valid.
     andThen (collectValid gs from b rest) (\<lambda>found.
       returns (if valid then to # found else found)))"

definition getValidMovesForPiece :: "GameState \<Rightarrow> Square \<Rightarrow> Board \<Rightarrow> Square list js" where
  "getValidMovesForPiece gs from b = collectValid gs from b allSquares"

text \<open>A handler that returns without calling \<open>onGameStateChange\<close> leaves the state as it
  is.\<close>

definition selectPiece :: "GameState \<Rightarrow> Square \<Rightarrow> GameState js" where
  "selectPiece gs sq =
     andThen (getValidMovesForPiece gs sq (board gs)) (\<lambda>found.
       returns (gs\<lparr>selectedSquare := Some sq, validMoves := found\<rparr>))"

definition handleSquareClick :: "GameState \<Rightarrow> Square \<Rightarrow> int \<Rightarrow> GameState js" where
  "handleSquareClick gs sq now =
     andThen (readCell (board gs) (fst sq) (snd sq)) (\<lambda>clicked.
       (let own = (case clicked of None \<Rightarrow> False | Some p \<Rightarrow> color p = currentPlayer gs)
        in case selectedSquare gs of
             Some selected \<Rightarrow>
               if isSameSquare selected sq
               then returns (gs\<lparr>selectedSquare := None, validMoves := []\<rparr>)
               else
                 andThen (isValidMove selected sq (board gs) (Some gs)) (\<lambda>valid.
                   if valid
                   then andThen (readCell (board gs) (fst selected) (snd selected))
                          (\<lambda>moving.
                             case moving of
                               None \<Rightarrow> returns gs
                             | Some movingPiece \<Rightarrow>
                                 if isPromotionMove selected sq movingPiece
                                 then returns
                                        (gs\<lparr>promotionPending :=
                                              Some \<lparr>square = sq,
                                                    pendingColor = color movingPiece\<rparr>\<rparr>)
                                 else executeMove gs selected sq movingPiece None now)
                   else if own then selectPiece gs sq
                   else returns (gs\<lparr>selectedSquare := None, validMoves := []\<rparr>))
           | None \<Rightarrow> if own then selectPiece gs sq else returns gs))"

definition handlePromotion :: "GameState \<Rightarrow> PieceType \<Rightarrow> int \<Rightarrow> GameState js" where
  "handlePromotion gs pieceType now =
     (case promotionPending gs of
        None \<Rightarrow> returns gs
      | Some pending \<Rightarrow>
          (case selectedSquare gs of
             None \<Rightarrow> returns gs
           | Some selected \<Rightarrow>
               andThen (readCell (board gs) (fst selected) (snd selected)) (\<lambda>moving.
                 case moving of
                   None \<Rightarrow> returns gs
                 | Some movingPiece \<Rightarrow>
                     executeMove gs selected (square pending) movingPiece (Some pieceType) now)))"

definition handlePromotionCancel :: "GameState \<Rightarrow> GameState" where
  "handlePromotionCancel gs = gs\<lparr>selectedSquare := None, validMoves := [], promotionPending := None\<rparr>"

definition handleNewGame :: "GameState \<Rightarrow> GameState" where
  "handleNewGame gs = createInitialGameState"

text \<open>The actions of a player, and the states a game passes through. A handler that
  throws or does not return leaves no new state.\<close>

datatype Action = Click Square | Promote PieceType | CancelPromotion | NewGame

fun step :: "GameState \<Rightarrow> Action \<Rightarrow> int \<Rightarrow> GameState js" where
  "step gs (Click sq) now = handleSquareClick gs sq now"
| "step gs (Promote t) now = handlePromotion gs t now"
| "step gs CancelPromotion now = returns (handlePromotionCancel gs)"
| "step gs NewGame now = returns (handleNewGame gs)"

inductive reachable :: "GameState \<Rightarrow> bool" where
  start: "reachable createInitialGameState"
| after: "reachable gs \<Longrightarrow> step gs a now = returns gs' \<Longrightarrow> reachable gs'"

text \<open>Running a list of actions, each with its time.\<close>

fun run :: "GameState \<Rightarrow> (Action \<times> int) list \<Rightarrow> GameState js" where
  "run gs [] = returns gs"
| "run gs ((a, now) # rest) = andThen (step gs a now) (\<lambda>gs'. run gs' rest)"

section \<open>Auxiliary definitions for the statements\<close>

text \<open>What follows the piece letter in the notation of a move that is not castling.\<close>

definition notationTail ::
  "Square \<Rightarrow> ChessPiece option \<Rightarrow> bool \<Rightarrow> bool \<Rightarrow> string option \<Rightarrow> string" where
  "notationTail to captured enPassant promotion promoted =
     (if captured \<noteq> None \<or> enPassant then ''x'' else [])
     @ squareToNotation to
     @ (if enPassant then '' e.p.'' else [])
     @ (case promoted of
          Some t \<Rightarrow> if promotion \<and> t \<noteq> [] then ''='' @ toUpperCase (charAt0 t) else []
        | None \<Rightarrow> [])"

text \<open>A move record with the fields the bookkeeping functions do not read filled in
  plainly.\<close>

definition plainMove :: "Square \<Rightarrow> Square \<Rightarrow> ChessPiece \<Rightarrow> Move" where
  "plainMove from to p =
     \<lparr>fromSq = from, toSq = to, piece = p, capturedPiece = None, moveNotation = [],
      timestamp = 0, isCastling = False, isEnPassant = False, isPromotion = False,
      promotedTo = None\<rparr>"

text \<open>A computation that returns a value.\<close>

definition isReturn :: "'a js \<Rightarrow> bool" where
  "isReturn m = (case m of Some (Inr v) \<Rightarrow> True | _ \<Rightarrow> False)"

definition boardIs8x8 :: "Board \<Rightarrow> bool" where
  "boardIs8x8 b = (length b = 8 \<and> (\<forall>row \<in> set b. length row = 8))"

text \<open>The rows of the initial position.\<close>

definition backRank :: "PieceColor \<Rightarrow> ChessPiece option list" where
  "backRank c =
     map (\<lambda>t. Some \<lparr>type = t, color = c\<rparr>) [Rook, Knight, Bishop, Queen, King, Bishop, Knight, Rook]"

definition pawnRank :: "PieceColor \<Rightarrow> ChessPiece option list" where
  "pawnRank c = replicate 8 (Some \<lparr>type = Pawn, color = c\<rparr>)"

definition emptyRank :: "ChessPiece option list" where
  "emptyRank = replicate 8 None"

text \<open>The position after the white knight went from (7, 6) to (5, 5) and the black pawn
  from (1, 0) to (2, 0): the knight stands in front of the white pawn of column 5.\<close>

definition knightInFront :: Board where
  "knightInFront =
     [backRank Black,
      (pawnRank Black)[0 := None],
      emptyRank[0 := Some \<lparr>type = Pawn, color = Black\<rparr>],
      emptyRank,
      emptyRank,
      emptyRank[5 := Some \<lparr>type = Knight, color = White\<rparr>],
      pawnRank White,
      (backRank White)[6 := None]]"

text \<open>The castling condition in the words of the specification: the king on its original
  square, the right of that side still held, every square strictly between king and rook
  empty, a rook of the king's colour in the corner.\<close>

definition castlingRightFor :: "CastlingRights \<Rightarrow> PieceColor \<Rightarrow> bool \<Rightarrow> bool" where
  "castlingRightFor rights c kingSide =
     (if c = White
      then (if kingSide then whiteKingSide rights else whiteQueenSide rights)
      else (if kingSide then blackKingSide rights else blackQueenSide rights))"

definition castlingAllowedSpec ::
  "Board \<Rightarrow> CastlingRights \<Rightarrow> PieceColor \<Rightarrow> Square \<Rightarrow> Square \<Rightarrow> bool" where
  "castlingAllowedSpec b rights c from to =
     (let homeRow = (if c = White then 7 else 0);
          kingSide = (snd to > snd from);
          rookCol = (if kingSide then 7 else 0)
      in from = (homeRow, 4)
         \<and> castlingRightFor rights c kingSide
         \<and> (\<forall>col \<in> set [min 4 rookCol + 1 .. max 4 rookCol - 1]. cell b homeRow col = Inr None)
         \<and> cell b homeRow rookCol = Inr (Some \<lparr>type = Rook, color = c\<rparr>))"

text \<open>A position with the white king and king's rook on their squares and nothing between
  them.\<close>

definition castlingReady :: Board where
  "castlingReady =
     [backRank Black, pawnRank Black, emptyRank, emptyRank, emptyRank, emptyRank,
      pawnRank White, (backRank White)[5 := None, 6 := None]]"

text \<open>A position with a white pawn on (1, 0) in front of the empty corner (0, 0); the
  state after the pawn was selected; the state after its destination (0, 0) was
  clicked.\<close>

definition promotionBoard :: Board where
  "promotionBoard =
     [(backRank Black)[0 := None],
      (pawnRank Black)[0 := Some \<lparr>type = Pawn, color = White\<rparr>],
      emptyRank, emptyRank, emptyRank, emptyRank,
      (pawnRank White)[0 := None],
      backRank White]"

definition promotionReady :: GameState where
  "promotionReady =
     createInitialGameState
       \<lparr>board := promotionBoard, selectedSquare := Some (1, 0), validMoves := [(0, 0), (0, 1)]\<rparr>"

definition promotionWaiting :: GameState where
  "promotionWaiting =
     promotionReady\<lparr>promotionPending := Some \<lparr>square = (0, 0), pendingColor = White\<rparr>\<rparr>"

text \<open>The square of a state's board, read as \<open>cell\<close> reads it.\<close>

definition boardCell :: "Square \<Rightarrow> GameState \<Rightarrow> jsError + ChessPiece option" where
  "boardCell sq gs = cell (board gs) (fst sq) (snd sq)"

text \<open>The selected square, if any, holds a piece of the player to move.\<close>

definition ownSelection :: "GameState \<Rightarrow> bool" where
  "ownSelection gs =
     (case selectedSquare gs of
        None \<Rightarrow> True
      | Some selected \<Rightarrow>
          (case cell (board gs) (fst selected) (snd selected) of
             Inr (Some p) \<Rightarrow> color p = currentPlayer gs
           | _ \<Rightarrow> False))"

text \<open>Nothing was committed between two states.\<close>

definition sameTurn :: "GameState \<Rightarrow> GameState \<Rightarrow> bool" where
  "sameTurn gs gs' = (moves gs' = moves gs \<and> currentPlayer gs' = currentPlayer gs)"

text \<open>One move was committed between two states: the history grew by one move, of a
  piece of the player who was to move, and the turn passed to the other player.\<close>

definition committed :: "GameState \<Rightarrow> GameState \<Rightarrow> bool" where
  "committed gs gs' =
     (moves gs' \<noteq> [] \<and> butlast (moves gs') = moves gs
      \<and> color (piece (last (moves gs'))) = currentPlayer gs
      \<and> currentPlayer gs' = (if currentPlayer gs = White then Black else White))"

text \<open>The state after the white pawn of (6, 4) was selected, and the state after three
  committed moves: knight (7, 6) to (5, 5), pawn (1, 0) to (2, 0), pawn (6, 5) to
  (4, 5).\<close>

definition pawnSelected :: GameState where
  "pawnSelected =
     (case run createInitialGameState [(Click (6, 4), 0)]
      of Some (Inr gs) \<Rightarrow> gs | _ \<Rightarrow> createInitialGameState)"


definition afterThreeMoves :: GameState where
  "afterThreeMoves =
     (case run createInitialGameState
             [(Click (7, 6), 0), (Click (5, 5), 1), (Click (1, 0), 2), (Click (2, 0), 3),
              (Click (6, 5), 4), (Click (4, 5), 5)]
      of Some (Inr gs) \<Rightarrow> gs | _ \<Rightarrow> createInitialGameState)"

text \<open>The words of the claim about the en passant target. A pawn advances in the
  direction of its colour; a move is an advance of two ranks when a pawn arrives two rows
  further in that direction; the square passed over lies between origin and destination
  rows, in the column of arrival.\<close>

definition pawnDirection :: "PieceColor \<Rightarrow> int" where
  "pawnDirection c = (if c = White then - 1 else 1)"

definition twoRankAdvance :: "Move \<Rightarrow> bool" where
  "twoRankAdvance m =
     (type (piece m) = Pawn
      \<and> fst (toSq m) = fst (fromSq m) + 2 * pawnDirection (color (piece m)))"

definition squarePassedOver :: "Move \<Rightarrow> Square" where
  "squarePassedOver m = ((fst (fromSq m) + fst (toSq m)) div 2, snd (toSq m))"

text \<open>A recorded move has its rows on the board, and \<open>updateEnPassantTarget\<close> gives for it
  the square passed over exactly when it is an advance of two ranks.\<close>

definition targetAsClaimed :: "Move \<Rightarrow> bool" where
  "targetAsClaimed m =
     (0 \<le> fst (fromSq m) \<and> fst (fromSq m) < 8 \<and> 0 \<le> fst (toSq m) \<and> fst (toSq m) < 8
      \<and> updateEnPassantTarget m
          = (if twoRankAdvance m then Some (squarePassedOver m) else None))"

text \<open>The en passant target that the last move of a history leaves.\<close>

definition lastMoveTarget :: "Move list \<Rightarrow> Square option" where
  "lastMoveTarget ms = (if ms = [] then None else updateEnPassantTarget (last ms))"

text \<open>A pending promotion waits on the last rank of the player to move.\<close>

definition pendingOnLastRank :: "GameState \<Rightarrow> bool" where
  "pendingOnLastRank gs =
     (case promotionPending gs of
        None \<Rightarrow> True
      | Some pending \<Rightarrow> fst (square pending) = (if currentPlayer gs = White then 0 else 7))"

text \<open>What every state of a game satisfies, as is proved below.\<close>

definition windowInvariant :: "GameState \<Rightarrow> bool" where
  "windowInvariant gs =
     (length (board gs) = 8 \<and> ownSelection gs \<and> pendingOnLastRank gs
      \<and> list_all targetAsClaimed (moves gs)
      \<and> enPassantTarget gs = lastMoveTarget (moves gs))"

text \<open>The state after a double step and a single step: pawn (6, 4) to (4, 4), pawn (1, 0)
  to (2, 0).\<close>

definition afterDoubleThenSingle :: GameState where
  "afterDoubleThenSingle =
     (case run createInitialGameState
             [(Click (6, 4), 0), (Click (4, 4), 1), (Click (1, 0), 2), (Click (2, 0), 3)]
      of Some (Inr gs) \<Rightarrow> gs | _ \<Rightarrow> createInitialGameState)"

section \<open>Outcomes\<close>

lemma andThen_simps [simp]:
  "andThen None f = None"
  "andThen (throws e) f = throws e"
  "andThen (returns v) f = f v"
  by (simp_all add: andThen_def)

lemma andThen_returns_iff:
  "andThen m f = returns v \<longleftrightarrow> (\<exists>x. m = returns x \<and> f x = returns v)"
  by (auto simp: andThen_def split: option.splits sum.splits)

lemma isReturn_simps [simp]:
  "isReturn (returns v)" "\<not> isReturn (throws e)" "\<not> isReturn None"
  by (simp_all add: isReturn_def)

lemma isReturn_iff: "isReturn m \<longleftrightarrow> (\<exists>v. m = returns v)"
  by (auto simp: isReturn_def split: option.splits sum.splits)

lemma isReturn_andThen:
  "isReturn m \<Longrightarrow> (\<And>x. isReturn (f x)) \<Longrightarrow> isReturn (andThen m f)"
  by (auto simp: isReturn_iff)

section \<open>The initial position\<close>

lemma createInitialBoard_rows:
  "createInitialBoard =
     [backRank Black, pawnRank Black, emptyRank, emptyRank, emptyRank, emptyRank,
      pawnRank White, backRank White]"
  by code_simp

lemma boardIs8x8_initial: "boardIs8x8 createInitialBoard"
  by (simp add: boardIs8x8_def createInitialBoard_rows backRank_def pawnRank_def emptyRank_def)

lemmas eval_defs =
  executeMove_def createInitialGameState_def createInitialBoard_rows readCell_def cell_def
  backRank_def pawnRank_def emptyRank_def setCell_def jsSet_def Let_def
  updateCastlingRights_def updateEnPassantTarget_def generateMoveNotation_def
  jsIndexText_def FILES_def RANKS_def

section \<open>Reading the board\<close>

lemma cell_row_ok: "0 \<le> r \<Longrightarrow> r < int (length b) \<Longrightarrow> \<exists>x. cell b r c = Inr x"
  by (simp add: cell_def)

lemma cell_row_bad: "\<not> (0 \<le> r \<and> r < int (length b)) \<Longrightarrow> cell b r c = Inl TypeError"
  by (auto simp add: cell_def)

lemma occupied_row_ok: "0 \<le> r \<Longrightarrow> r < int (length b) \<Longrightarrow> isReturn (occupied b r c)"
  by (simp add: occupied_def cell_def)

section \<open>Notation\<close>

lemma pieceLetter:
  "toUpperCase (charAt0 ''rook'') = ''R''"
  "toUpperCase (charAt0 ''knight'') = ''K''"
  "toUpperCase (charAt0 ''bishop'') = ''B''"
  "toUpperCase (charAt0 ''queen'') = ''Q''"
  "toUpperCase (charAt0 ''king'') = ''K''"
  by code_simp+

lemma pieceLetter_length: "t \<noteq> Pawn \<Longrightarrow> length (toUpperCase (charAt0 (typeName t))) = 1"
  by (cases t) (simp_all add: pieceLetter)

lemma generateMoveNotation_nonpawn:
  "type p \<noteq> Pawn \<Longrightarrow>
   generateMoveNotation from to p captured False enPassant promotion promoted
     = toUpperCase (charAt0 (typeName (type p)))
       @ notationTail to captured enPassant promotion promoted"
  by (auto simp add: generateMoveNotation_def notationTail_def Let_def split: option.splits)

text \<open>C9: for a move that is not castling, of a piece that is not a pawn, the notation
  begins with the first letter of the name of the piece type in upper case. For a knight
  that letter is K, and the whole notation of a knight move is the notation of the same
  move made by a king: the text does not tell the two apart.\<close>

theorem notation_piece_letter:
  "(type p \<noteq> Pawn \<longrightarrow>
      take 1 (generateMoveNotation from to p captured False enPassant promotion promoted)
        = toUpperCase (charAt0 (typeName (type p))))
   \<and> take 1 (generateMoveNotation from to \<lparr>type = Knight, color = c\<rparr> captured False enPassant
        promotion promoted) = ''K''
   \<and> generateMoveNotation from to \<lparr>type = Knight, color = c\<rparr> captured False enPassant
        promotion promoted
      = generateMoveNotation from to \<lparr>type = King, color = c\<rparr> captured False enPassant
        promotion promoted"
  by (simp add: generateMoveNotation_nonpawn pieceLetter pieceLetter_length)

theorem notation_piece_letter_witness:
  "type \<lparr>type = Knight, color = White\<rparr> \<noteq> Pawn
   \<and> take 1 (generateMoveNotation (7, 6) (5, 5) \<lparr>type = Knight, color = White\<rparr> None False False
      False None) = ''K''
   \<and> generateMoveNotation (7, 6) (5, 5) \<lparr>type = Knight, color = White\<rparr> None False False
      False None = ''Kf3''
   \<and> generateMoveNotation (7, 6) (5, 5) \<lparr>type = King, color = White\<rparr> None False False
      False None = ''Kf3''"
  using notation_piece_letter [of "\<lparr>type = Knight, color = White\<rparr>" "(7, 6)" "(5, 5)" None
      False False None White]
  by (simp add: pieceLetter) code_simp

section \<open>Castling rights and the en passant target\<close>

text \<open>C8: a king move clears both rights of the king's colour and nothing else; a move
  of a rook from a corner of its own back rank clears the right of that corner and nothing
  else; every other move leaves the rights as they are; no right that is cleared in the
  state is set in the result.\<close>

theorem updateCastlingRights_spec:
  fixes gs :: GameState and m :: Move
  defines "r \<equiv> castlingRights gs" and "r' \<equiv> updateCastlingRights gs m" and "p \<equiv> piece m"
  shows
  "(type p = King \<and> color p = White \<longrightarrow>
      r' = r\<lparr>whiteKingSide := False, whiteQueenSide := False\<rparr>)
   \<and> (type p = King \<and> color p = Black \<longrightarrow>
      r' = r\<lparr>blackKingSide := False, blackQueenSide := False\<rparr>)
   \<and> (type p = Rook \<and> color p = White \<and> fromSq m = (7, 0) \<longrightarrow>
      r' = r\<lparr>whiteQueenSide := False\<rparr>)
   \<and> (type p = Rook \<and> color p = White \<and> fromSq m = (7, 7) \<longrightarrow>
      r' = r\<lparr>whiteKingSide := False\<rparr>)
   \<and> (type p = Rook \<and> color p = Black \<and> fromSq m = (0, 0) \<longrightarrow>
      r' = r\<lparr>blackQueenSide := False\<rparr>)
   \<and> (type p = Rook \<and> color p = Black \<and> fromSq m = (0, 7) \<longrightarrow>
      r' = r\<lparr>blackKingSide := False\<rparr>)
   \<and> (type p \<noteq> King
        \<and> \<not> (type p = Rook \<and> color p = White \<and> (fromSq m = (7, 0) \<or> fromSq m = (7, 7)))
        \<and> \<not> (type p = Rook \<and> color p = Black \<and> (fromSq m = (0, 0) \<or> fromSq m = (0, 7)))
        \<longrightarrow> r' = r)
   \<and> (whiteKingSide r' \<longrightarrow> whiteKingSide r)
   \<and> (whiteQueenSide r' \<longrightarrow> whiteQueenSide r)
   \<and> (blackKingSide r' \<longrightarrow> blackKingSide r)
   \<and> (blackQueenSide r' \<longrightarrow> blackQueenSide r)"
  unfolding r_def r'_def p_def updateCastlingRights_def Let_def
  by (cases "fromSq m") auto

theorem updateCastlingRights_spec_witness:
  "updateCastlingRights createInitialGameState
       (plainMove (7, 4) (6, 4) \<lparr>type = King, color = White\<rparr>)
     = \<lparr>whiteKingSide = False, whiteQueenSide = False,
        blackKingSide = True, blackQueenSide = True\<rparr>
   \<and> updateCastlingRights createInitialGameState
       (plainMove (0, 7) (0, 6) \<lparr>type = Rook, color = Black\<rparr>)
     = \<lparr>whiteKingSide = True, whiteQueenSide = True,
        blackKingSide = False, blackQueenSide = True\<rparr>
   \<and> updateCastlingRights createInitialGameState
       (plainMove (0, 7) (0, 6) \<lparr>type = Rook, color = White\<rparr>)
     = castlingRights createInitialGameState"
  using
    updateCastlingRights_spec
      [of "plainMove (7, 4) (6, 4) \<lparr>type = King, color = White\<rparr>" createInitialGameState]
    updateCastlingRights_spec
      [of "plainMove (0, 7) (0, 6) \<lparr>type = Rook, color = Black\<rparr>" createInitialGameState]
    updateCastlingRights_spec
      [of "plainMove (0, 7) (0, 6) \<lparr>type = Rook, color = White\<rparr>" createInitialGameState]
  by (simp add: plainMove_def createInitialGameState_def)

lemma updateEnPassantTarget_value:
  "updateEnPassantTarget m =
     (if type (piece m) = Pawn \<and> \<bar>fst (fromSq m) - fst (toSq m)\<bar> = 2
      then Some (fst (fromSq m) + pawnDirection (color (piece m)), snd (toSq m))
      else None)"
  unfolding updateEnPassantTarget_def Let_def pawnDirection_def by auto

section \<open>Evaluation of the validator\<close>

lemma unitDir_sgn: "a \<noteq> b \<Longrightarrow> unitDir a b = sgn (b - a)"
proof -
  assume "a \<noteq> b"
  then consider "a < b" | "b < a" by linarith
  then show ?thesis
  proof cases
    case 1
    then show ?thesis by (simp add: unitDir_def)
  next
    case 2
    then have "\<bar>b - a\<bar> = a - b" "b - a = (- 1) * (a - b)" "a - b \<noteq> 0" by simp_all
    then have "(b - a) div \<bar>b - a\<bar> = - 1"
      by (metis nonzero_mult_div_cancel_right)
    with 2 show ?thesis by (simp add: unitDir_def)
  qed
qed

lemma pathClear_total:
  assumes "dr \<in> {- 1, 0, 1}"
  shows "toR = r + int k * dr \<Longrightarrow> toC = c + int k * dc \<Longrightarrow>
         0 \<le> r \<Longrightarrow> r < int (length b) \<Longrightarrow> 0 \<le> toR \<Longrightarrow> toR < int (length b) \<Longrightarrow>
         isReturn (pathClear b r c dr dc toR toC)"
proof (induction k arbitrary: r c)
  case 0
  then show ?case by (subst pathClear.simps) auto
next
  case (Suc k)
  obtain x where x: "cell b r c = Inr x" using cell_row_ok [OF Suc.prems(3,4)] by blast
  show ?case
  proof (cases "r \<noteq> toR \<or> c \<noteq> toC")
    case False
    then show ?thesis by (subst pathClear.simps) auto
  next
    case True
    show ?thesis
    proof (cases x)
      case (Some p)
      with True x show ?thesis by (subst pathClear.simps) auto
    next
      case None
      have step: "toR = (r + dr) + int k * dr" "toC = (c + dc) + int k * dc"
        using Suc.prems(1,2) by (simp_all add: algebra_simps)
      have rng: "0 \<le> r + dr \<and> r + dr < int (length b)"
        using assms Suc.prems(1,3,4,5,6)
        by (auto simp: algebra_simps)
      from Suc.IH [OF step] rng Suc.prems(5,6)
      have "isReturn (pathClear b (r + dr) (c + dc) dr dc toR toC)" by blast
      with True x None show ?thesis by (subst pathClear.simps) simp
    qed
  qed
qed

lemma isValidRookMove_total:
  assumes "0 \<le> fromRow" "fromRow < int (length b)" "0 \<le> toRow" "toRow < int (length b)"
  shows "isReturn (isValidRookMove (fromRow, fromCol) (toRow, toCol) b)"
proof (cases "fromRow \<noteq> toRow \<and> fromCol \<noteq> toCol")
  case True
  then show ?thesis by simp
next
  case False
  define rowDir where "rowDir = (if fromRow = toRow then 0 else unitDir fromRow toRow)"
  define colDir where "colDir = (if fromCol = toCol then 0 else unitDir fromCol toCol)"
  define k where "k = (if fromRow = toRow \<and> fromCol = toCol then 0
                       else nat (max \<bar>toRow - fromRow\<bar> \<bar>toCol - fromCol\<bar>) - 1)"
  have dr: "rowDir \<in> {- 1, 0, 1}"
    by (auto simp: rowDir_def unitDir_sgn sgn_if)
  have r: "toRow = (fromRow + rowDir) + int k * rowDir"
    using False by (auto simp: rowDir_def k_def unitDir_sgn sgn_if algebra_simps)
  have c: "toCol = (fromCol + colDir) + int k * colDir"
    using False by (auto simp: colDir_def k_def unitDir_sgn sgn_if algebra_simps)
  have rng: "0 \<le> fromRow + rowDir" "fromRow + rowDir < int (length b)"
    using assms by (auto simp: rowDir_def unitDir_sgn sgn_if)
  from pathClear_total [OF dr r c rng assms(3,4)] False
  show ?thesis by (auto simp add: rowDir_def colDir_def Let_def)
qed

lemma isValidBishopMove_total:
  assumes "0 \<le> fromRow" "fromRow < int (length b)" "0 \<le> toRow" "toRow < int (length b)"
    and "(fromRow, fromCol) \<noteq> (toRow, toCol)"
  shows "isReturn (isValidBishopMove (fromRow, fromCol) (toRow, toCol) b)"
proof (cases "\<bar>fromRow - toRow\<bar> \<noteq> \<bar>fromCol - toCol\<bar>")
  case True
  then show ?thesis by simp
next
  case False
  with assms(5) have ne: "fromRow \<noteq> toRow" "fromCol \<noteq> toCol" by auto
  define rowDir where "rowDir = unitDir fromRow toRow"
  define colDir where "colDir = unitDir fromCol toCol"
  define k where "k = nat \<bar>toRow - fromRow\<bar> - 1"
  have dr: "rowDir \<in> {- 1, 0, 1}"
    using ne by (auto simp: rowDir_def unitDir_sgn sgn_if)
  have r: "toRow = (fromRow + rowDir) + int k * rowDir"
    using ne by (auto simp: rowDir_def k_def unitDir_sgn sgn_if algebra_simps)
  have c: "toCol = (fromCol + colDir) + int k * colDir"
    using ne False by (auto simp: colDir_def k_def unitDir_sgn sgn_if algebra_simps)
  have rng: "0 \<le> fromRow + rowDir" "fromRow + rowDir < int (length b)"
    using assms ne by (auto simp: rowDir_def unitDir_sgn sgn_if)
  from pathClear_total [OF dr r c rng assms(3,4)] False ne
  show ?thesis by (auto simp add: rowDir_def colDir_def Let_def)
qed

lemma isValidPawnMove_total:
  assumes "0 \<le> toRow" "toRow < int (length b)"
  shows "isReturn (isValidPawnMove (fromRow, fromCol) (toRow, toCol) c b gs)"
  using occupied_row_ok [OF assms]
  by (auto simp: Let_def intro!: isReturn_andThen)

lemma rookInPosition_total:
  "0 \<le> r \<Longrightarrow> r < int (length b) \<Longrightarrow> isReturn (rookInPosition b r col c)"
  by (auto simp: rookInPosition_def cell_def split: option.splits)

lemma isValidKingMove_total:
  assumes "0 \<le> fromRow" "fromRow < int (length b)"
  shows "isReturn (isValidKingMove (fromRow, fromCol) (toRow, toCol) b gs)"
proof -
  obtain x where x: "cell b fromRow fromCol = Inr x"
    using cell_row_ok [OF assms] by blast
  show ?thesis
    using x occupied_row_ok [OF assms] rookInPosition_total [OF assms]
    by (auto simp: Let_def split: option.splits intro!: isReturn_andThen)
qed

lemma isValidMove_rows_total_aux:
  assumes fr: "0 \<le> fromRow" "fromRow < int (length b)"
    and tr: "0 \<le> toRow" "toRow < int (length b)"
  shows "isReturn (isValidMove (fromRow, fromCol) (toRow, toCol) b gs)"
proof -
  obtain x y where x: "cell b fromRow fromCol = Inr x" and y: "cell b toRow toCol = Inr y"
    using cell_row_ok [OF fr] cell_row_ok [OF tr] by blast
  show ?thesis
  proof (cases x)
    case None
    with x show ?thesis by (simp add: isValidMove_def)
  next
    case (Some p)
    show ?thesis
    proof (cases "case y of None \<Rightarrow> False | Some t \<Rightarrow> color t = color p")
      case True
      with x y Some show ?thesis by (simp add: isValidMove_def)
    next
      case False
      have ne: "(fromRow, fromCol) \<noteq> (toRow, toCol)"
        using False x y Some by auto
      have "isReturn (case type p of
                    Pawn \<Rightarrow> isValidPawnMove (fromRow, fromCol) (toRow, toCol) (color p) b gs
                  | Rook \<Rightarrow> isValidRookMove (fromRow, fromCol) (toRow, toCol) b
                  | Knight \<Rightarrow> returns (isValidKnightMove (fromRow, fromCol) (toRow, toCol))
                  | Bishop \<Rightarrow> isValidBishopMove (fromRow, fromCol) (toRow, toCol) b
                  | Queen \<Rightarrow> isValidQueenMove (fromRow, fromCol) (toRow, toCol) b
                  | King \<Rightarrow> isValidKingMove (fromRow, fromCol) (toRow, toCol) b gs)"
        unfolding isValidQueenMove_def
        using isValidPawnMove_total [OF tr] isValidRookMove_total [OF fr tr]
          isValidBishopMove_total [OF fr tr ne] isValidKingMove_total [OF fr]
        by (cases "type p")
          (auto intro!: isReturn_andThen
             simp del: isValidPawnMove.simps isValidRookMove.simps isValidBishopMove.simps
               isValidKingMove.simps)
      with False x y Some show ?thesis by (simp add: isValidMove_def)
    qed
  qed
qed

lemma isValidMove_rows_total:
  assumes "0 \<le> fst from" "fst from < int (length b)" "0 \<le> fst to" "fst to < int (length b)"
  shows "isReturn (isValidMove from to b gs)"
  using isValidMove_rows_total_aux [of "fst from" b "fst to" "snd from" "snd to" gs] assms
  by simp

text \<open>C2, as the code has it: \<open>isValidMove\<close> makes no bounds check. On a board of eight
  rows of eight squares, a move whose two rows lie in [0, 8) is answered with a boolean,
  whatever its columns; an origin row outside [0, 8) makes the evaluation throw a
  \<open>TypeError\<close>, and so does a destination row outside [0, 8) when the origin holds a piece;
  an origin column outside [0, 8) gives \<open>false\<close>, the square read there being
  \<open>undefined\<close>.\<close>

theorem isValidMove_bounds:
  assumes "boardIs8x8 b"
  shows "(0 \<le> fst from \<and> fst from < 8 \<and> 0 \<le> fst to \<and> fst to < 8
            \<longrightarrow> (\<exists>v. isValidMove from to b gs = returns v))
       \<and> (\<not> (0 \<le> fst from \<and> fst from < 8) \<longrightarrow> isValidMove from to b gs = throws TypeError)
       \<and> (0 \<le> fst from \<and> fst from < 8 \<and> \<not> (0 \<le> snd from \<and> snd from < 8)
            \<longrightarrow> isValidMove from to b gs = returns False)
       \<and> (isSquareOnBoard from \<and> cell b (fst from) (snd from) \<noteq> Inr None
            \<and> \<not> (0 \<le> fst to \<and> fst to < 8)
            \<longrightarrow> isValidMove from to b gs = throws TypeError)"
proof (intro conjI impI)
  have len: "int (length b) = 8" using assms by (simp add: boardIs8x8_def)
  {
    assume "0 \<le> fst from \<and> fst from < 8 \<and> 0 \<le> fst to \<and> fst to < 8"
    then have "isReturn (isValidMove from to b gs)"
      using len by (intro isValidMove_rows_total) simp_all
    then show "\<exists>v. isValidMove from to b gs = returns v"
      by (simp add: isReturn_iff)
  }
  {
    assume "\<not> (0 \<le> fst from \<and> fst from < 8)"
    then have "cell b (fst from) (snd from) = Inl TypeError"
      using len by (intro cell_row_bad) simp
    then show "isValidMove from to b gs = throws TypeError"
      by (simp add: isValidMove_def)
  }
  {
    assume a: "0 \<le> fst from \<and> fst from < 8 \<and> \<not> (0 \<le> snd from \<and> snd from < 8)"
    then have "nat (fst from) < length b" using len by linarith
    then have "length (b ! nat (fst from)) = 8"
      using assms by (simp add: boardIs8x8_def)
    with a len have "cell b (fst from) (snd from) = Inr None"
      by (auto simp add: cell_def)
    then show "isValidMove from to b gs = returns False"
      by (simp add: isValidMove_def)
  }
  {
    assume a: "isSquareOnBoard from \<and> cell b (fst from) (snd from) \<noteq> Inr None
       \<and> \<not> (0 \<le> fst to \<and> fst to < 8)"
    then obtain p where "cell b (fst from) (snd from) = Inr (Some p)"
      using len by (cases "from") (auto simp: cell_def split: if_splits)
    moreover have "cell b (fst to) (snd to) = Inl TypeError"
      using a len by (intro cell_row_bad) simp
    ultimately show "isValidMove from to b gs = throws TypeError"
      by (simp add: isValidMove_def)
  }
qed

theorem isValidMove_bounds_witness:
  "boardIs8x8 createInitialBoard
   \<and> (\<exists>v. isValidMove (7, 6) (5, 5) createInitialBoard None = returns v)
   \<and> isValidMove (8, 0) (0, 0) createInitialBoard None = throws TypeError
   \<and> isValidMove (7, 9) (0, 0) createInitialBoard None = returns False
   \<and> isValidMove (7, 6) (8, 5) createInitialBoard None = throws TypeError"
proof -
  note bounds = isValidMove_bounds [OF boardIs8x8_initial]
  have piece: "cell createInitialBoard 7 6 \<noteq> Inr None"
    by code_simp
  have "\<exists>v. isValidMove (7, 6) (5, 5) createInitialBoard None = returns v"
    using bounds [of "(7, 6)" "(5, 5)" None] by simp
  moreover have "isValidMove (8, 0) (0, 0) createInitialBoard None = throws TypeError"
    using bounds [of "(8, 0)" "(0, 0)" None] by simp
  moreover have "isValidMove (7, 9) (0, 0) createInitialBoard None = returns False"
    using bounds [of "(7, 9)" "(0, 0)" None] by simp
  moreover have "isValidMove (7, 6) (8, 5) createInitialBoard None = throws TypeError"
    using bounds [of "(7, 6)" "(8, 5)" None] piece by simp
  ultimately show ?thesis
    using boardIs8x8_initial by blast
qed

text \<open>On the initial board the knight of (7, 6) may go to (6, 8), a square off the board,
  and a move from row 8 throws instead of being refused.\<close>

theorem isValidMove_off_board_counterexample:
  "\<not> isSquareOnBoard (6, 8)
   \<and> isValidMove (7, 6) (6, 8) createInitialBoard (Some createInitialGameState) = returns True
   \<and> \<not> isSquareOnBoard (8, 0)
   \<and> isValidMove (8, 0) (0, 0) createInitialBoard (Some createInitialGameState)
       = throws TypeError"
  by code_simp

section \<open>The double step of a pawn\<close>

text \<open>What the validator asks of a double step: the pawn on the starting row of its
  colour and the destination empty. The square passed over is not read.\<close>

lemma pawn_double_step_accepted:
  assumes pawn: "cell b fromRow col = Inr (Some p)" "type p = Pawn"
    and start: "fromRow = (if color p = White then 6 else 1)"
    and two: "toRow = fromRow + 2 * (if color p = White then - 1 else 1)"
    and empty: "cell b toRow col = Inr None"
  shows "isValidMove (fromRow, col) (toRow, col) b gs = returns True"
  using assms by (auto simp: isValidMove_def occupied_def Let_def)

lemma knightInFront_reached:
  "map_option (map_sum id board)
     (run createInitialGameState
        [(Click (7, 6), 0), (Click (5, 5), 1), (Click (1, 0), 2), (Click (2, 0), 3)])
   = returns knightInFront"
  by code_simp

text \<open>C1 fails on the code. After the knight move (7, 6) to (5, 5) and the pawn move
  (1, 0) to (2, 0) the white pawn on its starting square (6, 5) has the knight in front of
  it on (5, 5); the double step to the empty square (4, 5) is accepted all the same, with
  or without a game state, and the two clicks commit it as the move f4.\<close>

theorem pawn_double_step_over_piece:
  "map_option (map_sum id board)
     (run createInitialGameState
        [(Click (7, 6), 0), (Click (5, 5), 1), (Click (1, 0), 2), (Click (2, 0), 3)])
     = returns knightInFront
   \<and> cell knightInFront 6 5 = Inr (Some \<lparr>type = Pawn, color = White\<rparr>)
   \<and> cell knightInFront 5 5 = Inr (Some \<lparr>type = Knight, color = White\<rparr>)
   \<and> cell knightInFront 4 5 = Inr None
   \<and> isValidMove (6, 5) (4, 5) knightInFront gs = returns True
   \<and> map_option (map_sum id (map moveNotation \<circ> moves))
       (run createInitialGameState
          [(Click (7, 6), 0), (Click (5, 5), 1), (Click (1, 0), 2), (Click (2, 0), 3),
           (Click (6, 5), 4), (Click (4, 5), 5)])
     = returns [''Kf3'', ''a6'', ''f4'']"
proof -
  have cells:
    "cell knightInFront 6 5 = Inr (Some \<lparr>type = Pawn, color = White\<rparr>)"
    "cell knightInFront 5 5 = Inr (Some \<lparr>type = Knight, color = White\<rparr>)"
    "cell knightInFront 4 5 = Inr None"
    by code_simp+
  have valid: "isValidMove (6, 5) (4, 5) knightInFront gs = returns True"
    using pawn_double_step_accepted [OF cells(1) _ _ _ cells(3), of gs] by simp
  have played:
    "map_option (map_sum id (map moveNotation \<circ> moves))
       (run createInitialGameState
          [(Click (7, 6), 0), (Click (5, 5), 1), (Click (1, 0), 2), (Click (2, 0), 3),
           (Click (6, 5), 4), (Click (4, 5), 5)])
     = returns [''Kf3'', ''a6'', ''f4'']"
    by code_simp
  show ?thesis
    using knightInFront_reached valid cells played by blast
qed

section \<open>The first move\<close>

lemma select_e2:
  "handleSquareClick createInitialGameState (6, 4) t0
     = returns (createInitialGameState
                  \<lparr>selectedSquare := Some (6, 4), validMoves := [(4, 4), (5, 4)]\<rparr>)"
  by code_simp

lemma click_e4:
  "handleSquareClick
     (createInitialGameState\<lparr>selectedSquare := Some (6, 4), validMoves := [(4, 4), (5, 4)]\<rparr>)
     (4, 4) now
   = executeMove createInitialGameState (6, 4) (4, 4) \<lparr>type = Pawn, color = White\<rparr> None now"
  by (simp add: handleSquareClick_def isValidMove_def isSameSquare_def occupied_def eval_defs)

text \<open>C6: from the initial state, the move of the white pawn from (6, 4) to (4, 4), made
  by \<open>executeMove\<close> or by the two clicks that select the pawn and its destination, gives
  a state whose history is the one move with notation e4, whose en passant target is
  (5, 4) and whose four castling rights are all set.\<close>

theorem initial_e4:
  "\<exists>gs'. executeMove createInitialGameState (6, 4) (4, 4) \<lparr>type = Pawn, color = White\<rparr> None now
            = returns gs'
     \<and> run createInitialGameState [(Click (6, 4), t0), (Click (4, 4), now)] = returns gs'
     \<and> (\<exists>m. moves gs' = [m] \<and> moveNotation m = ''e4'' \<and> fromSq m = (6, 4) \<and> toSq m = (4, 4))
     \<and> enPassantTarget gs' = Some (5, 4)
     \<and> castlingRights gs' = \<lparr>whiteKingSide = True, whiteQueenSide = True,
                              blackKingSide = True, blackQueenSide = True\<rparr>"
  apply (simp add: select_e2 click_e4)
  apply (simp add: eval_defs)
  done

section \<open>Castling attempts\<close>

lemma between_king_side: "(\<forall>col \<in> {5 .. 6::int}. P col) \<longleftrightarrow> P 5 \<and> P 6"
proof -
  have "{5 .. 6::int} = {5, 6}" by auto
  then show ?thesis by simp
qed

lemma between_queen_side: "(\<forall>col \<in> {1 .. 3::int}. P col) \<longleftrightarrow> P 1 \<and> P 2 \<and> P 3"
proof -
  have "{1 .. 3::int} = {1, 2, 3}" by auto
  then show ?thesis by simp
qed

lemma occupied_eq:
  "cell b r c = Inr x \<Longrightarrow> occupied b r c = returns (x \<noteq> None)"
  by (simp add: occupied_def)

lemma rookInPosition_eq:
  "cell b r col = Inr x \<Longrightarrow>
   rookInPosition b r col c = returns (x = Some \<lparr>type = Rook, color = c\<rparr>)"
  by (cases x) (auto simp: rookInPosition_def)

lemma castling_home:
  assumes k: "cell b kingRow 4 = Inr (Some k)" "type k = King"
    and home: "kingRow = (if color k = White then 7 else 0)"
    and side: "toCol = 6 \<or> toCol = 2"
  shows "isValidMove (kingRow, 4) (kingRow, toCol) b (Some gs)
         = returns (castlingAllowedSpec b (castlingRights gs) (color k) (kingRow, 4) (kingRow, toCol))"
proof -
  have row: "0 \<le> kingRow" "kingRow < int (length b)"
    using k(1) by (auto simp: cell_def split: if_splits)
  obtain x0 x1 x2 x3 x5 x6 x7 where cells:
    "cell b kingRow 0 = Inr x0" "cell b kingRow 1 = Inr x1" "cell b kingRow 2 = Inr x2"
    "cell b kingRow 3 = Inr x3" "cell b kingRow 5 = Inr x5" "cell b kingRow 6 = Inr x6"
    "cell b kingRow 7 = Inr x7"
    using cell_row_ok [OF row] by metis
  note occ = cells [THEN occupied_eq] and rook = cells(1,7) [THEN rookInPosition_eq]
  from side show ?thesis
  proof
    assume six: "toCol = 6"
    show ?thesis
      using k home cells occ rook
      by (cases x6)
        (auto simp: six isValidMove_def castlingAllowedSpec_def castlingRightFor_def Let_def
          between_king_side)
  next
    assume two: "toCol = 2"
    show ?thesis
      using k home cells occ rook
      by (cases x2)
        (auto simp: two isValidMove_def castlingAllowedSpec_def castlingRightFor_def Let_def
          between_queen_side)
  qed
qed

lemma castling_away:
  assumes k: "cell b fromRow fromCol = Inr (Some k)" "type k = King"
    and dist: "\<bar>fromCol - toCol\<bar> = 2"
    and away: "(fromRow, fromCol) \<noteq> (if color k = White then 7 else 0, 4)"
  shows "isValidMove (fromRow, fromCol) (fromRow, toCol) b (Some gs) = returns False"
proof -
  have row: "0 \<le> fromRow" "fromRow < int (length b)"
    using k(1) by (auto simp: cell_def split: if_splits)
  obtain y where y: "cell b fromRow toCol = Inr y"
    using cell_row_ok [OF row] by blast
  show ?thesis
    using k dist away y by (auto simp: isValidMove_def Let_def)
qed

text \<open>C4: with a king of either colour on \<open>from\<close> and a destination in the same row two
  columns away, \<open>isValidMove\<close> (given a game state) returns whether the castling condition
  of the specification holds.\<close>

theorem castling_attempt_iff:
  assumes king: "cell b (fst from) (snd from) = Inr (Some k)" "type k = King"
    and horizontal: "fst to = fst from" "\<bar>snd from - snd to\<bar> = 2"
  shows "isValidMove from to b (Some gs)
         = returns (castlingAllowedSpec b (castlingRights gs) (color k) from to)"
proof (cases "from = (if color k = White then 7 else 0, 4)")
  case True
  then have side: "snd to = 6 \<or> snd to = 2"
    using horizontal(2) by (auto split: if_splits)
  have "to = (fst from, snd to)" using horizontal(1) by (cases to) simp
  with True castling_home [of b "fst from" k "snd to" gs] king side
  show ?thesis by (auto split: if_splits)
next
  case False
  have "to = (fst from, snd to)" using horizontal(1) by (cases to) simp
  with False castling_away [of b "fst from" "snd from" k "snd to" gs] king horizontal(2)
  show ?thesis
    by (cases "from") (auto simp: castlingAllowedSpec_def Let_def)
qed

theorem castling_attempt_iff_witness:
  "cell castlingReady 7 4 = Inr (Some \<lparr>type = King, color = White\<rparr>)
   \<and> isValidMove (7, 4) (7, 6) castlingReady (Some (createInitialGameState\<lparr>board := castlingReady\<rparr>))
       = returns True
   \<and> isValidMove (7, 4) (7, 2) castlingReady (Some (createInitialGameState\<lparr>board := castlingReady\<rparr>))
       = returns False"
proof -
  have k: "cell castlingReady (fst (7, 4)) (snd (7, 4)) = Inr (Some \<lparr>type = King, color = White\<rparr>)"
    by code_simp
  have spec:
    "castlingAllowedSpec castlingReady (castlingRights (createInitialGameState\<lparr>board := castlingReady\<rparr>))
        White (7, 4) (7, 6)"
    "\<not> castlingAllowedSpec castlingReady (castlingRights (createInitialGameState\<lparr>board := castlingReady\<rparr>))
        White (7, 4) (7, 2)"
    by code_simp+
  show ?thesis
    using castling_attempt_iff [OF k, of "(7, 6)" "createInitialGameState\<lparr>board := castlingReady\<rparr>"]
      castling_attempt_iff [OF k, of "(7, 2)" "createInitialGameState\<lparr>board := castlingReady\<rparr>"]
      k spec
    by simp
qed

section \<open>Promotion\<close>

lemma isValidMove_True_cells:
  assumes "isValidMove from to b gs = returns True"
  shows "\<exists>p y. cell b (fst from) (snd from) = Inr (Some p) \<and> cell b (fst to) (snd to) = Inr y
               \<and> y \<noteq> Some p"
  using assms
  by (auto simp: isValidMove_def split: sum.splits option.splits if_splits)

lemma isValidMove_True_distinct:
  assumes "isValidMove from to b gs = returns True"
  shows "\<not> isSameSquare from to"
  using isValidMove_True_cells [OF assms] by (auto simp: isSameSquare_def)

text \<open>C5: when the selected square holds a pawn and the clicked square is a legal
  destination on the pawn's final rank, the click only records the pending promotion
  (the clicked square and the pawn's colour): the board is the same. Cancelling then
  clears the pending promotion and the selection, and board and player to move are those
  of the state before the click.\<close>

theorem promotion_pending_then_cancel:
  assumes sel: "selectedSquare gs = Some from"
    and pawn: "cell (board gs) (fst from) (snd from) = Inr (Some p)"
    and legal: "isValidMove from to (board gs) (Some gs) = returns True"
    and final: "isPromotionMove from to p"
  shows "handleSquareClick gs to now
           = returns (gs\<lparr>promotionPending := Some \<lparr>square = to, pendingColor = color p\<rparr>\<rparr>)
       \<and> board (gs\<lparr>promotionPending := Some \<lparr>square = to, pendingColor = color p\<rparr>\<rparr>) = board gs
       \<and> handlePromotionCancel (gs\<lparr>promotionPending := Some \<lparr>square = to, pendingColor = color p\<rparr>\<rparr>)
           = gs\<lparr>selectedSquare := None, validMoves := [], promotionPending := None\<rparr>
       \<and> board (handlePromotionCancel
                   (gs\<lparr>promotionPending := Some \<lparr>square = to, pendingColor = color p\<rparr>\<rparr>))
           = board gs
       \<and> currentPlayer (handlePromotionCancel
                   (gs\<lparr>promotionPending := Some \<lparr>square = to, pendingColor = color p\<rparr>\<rparr>))
           = currentPlayer gs"
proof -
  obtain y where y: "cell (board gs) (fst to) (snd to) = Inr y"
    using isValidMove_True_cells [OF legal] by blast
  have ne: "\<not> isSameSquare from to"
    using isValidMove_True_distinct [OF legal] .
  have "handleSquareClick gs to now
           = returns (gs\<lparr>promotionPending := Some \<lparr>square = to, pendingColor = color p\<rparr>\<rparr>)"
    using sel pawn legal final y ne
    by (simp add: handleSquareClick_def readCell_def Let_def)
  then show ?thesis
    by (simp add: handlePromotionCancel_def)
qed

theorem promotion_pending_then_cancel_witness:
  "selectedSquare promotionReady = Some (1, 0)
   \<and> cell (board promotionReady) 1 0 = Inr (Some \<lparr>type = Pawn, color = White\<rparr>)
   \<and> isValidMove (1, 0) (0, 0) (board promotionReady) (Some promotionReady) = returns True
   \<and> isPromotionMove (1, 0) (0, 0) \<lparr>type = Pawn, color = White\<rparr>
   \<and> handleSquareClick promotionReady (0, 0) 0 = returns promotionWaiting
   \<and> handlePromotionCancel promotionWaiting
       = promotionReady\<lparr>selectedSquare := None, validMoves := []\<rparr>
   \<and> board (handlePromotionCancel promotionWaiting) = promotionBoard
   \<and> currentPlayer (handlePromotionCancel promotionWaiting) = White"
proof -
  have sel: "selectedSquare promotionReady = Some (1, 0)"
    by (simp add: promotionReady_def)
  have pawn: "cell (board promotionReady) (fst (1, 0)) (snd (1, 0))
                = Inr (Some \<lparr>type = Pawn, color = White\<rparr>)"
    by code_simp
  have legal: "isValidMove (1, 0) (0, 0) (board promotionReady) (Some promotionReady)
                = returns True"
    by code_simp
  have final: "isPromotionMove (1, 0) (0, 0) \<lparr>type = Pawn, color = White\<rparr>"
    by simp
  have same: "promotionReady\<lparr>promotionPending := None\<rparr> = promotionReady"
    by (simp add: promotionReady_def createInitialGameState_def)
  show ?thesis
    using promotion_pending_then_cancel [OF sel pawn legal final, of 0] sel pawn legal final
    by (simp add: promotionWaiting_def)
      (simp add: promotionReady_def createInitialGameState_def)
qed

lemma jsSet_nth: "i < length (jsSet xs i v) \<and> jsSet xs i v ! i = v"
  by (simp add: jsSet_def nth_append)

lemma setCell_ok:
  "0 \<le> r \<Longrightarrow> r < int (length b) \<Longrightarrow> 0 \<le> c \<Longrightarrow>
   setCell b r c v = returns (b[nat r := jsSet (b ! nat r) (nat c) v])"
  by (simp add: setCell_def)

lemma cell_after_set:
  "0 \<le> r \<Longrightarrow> r < int (length b) \<Longrightarrow> 0 \<le> c \<Longrightarrow>
   cell (b[nat r := jsSet (b ! nat r) (nat c) v]) r c = Inr v"
  using jsSet_nth [of "nat c" "b ! nat r" v]
  by (auto simp: cell_def)

lemma cell_Some_in_range:
  "cell b r c = Inr (Some p) \<Longrightarrow> 0 \<le> r \<and> r < int (length b) \<and> 0 \<le> c"
  by (auto simp: cell_def split: if_splits)

text \<open>C3, as the code has it: \<open>handlePromotion\<close> does not examine the requested type. With
  a promotion pending on a square of the board and a pawn on the selected square (the
  move not being an en passant capture), every requested type, pawn and king included,
  is committed: the pending square then holds a piece of that type and of the pawn's
  colour, the move is appended to the history, the turn passes, and the pending promotion
  and the selection are cleared.\<close>

theorem handlePromotion_unchecked:
  assumes pending: "promotionPending gs = Some pending"
    and sel: "selectedSquare gs = Some from"
    and pawn: "cell (board gs) (fst from) (snd from) = Inr (Some p)" "type p = Pawn"
    and plain: "\<not> isEnPassantMove from (square pending) p gs"
    and onBoard: "length (board gs) = 8" "isSquareOnBoard (square pending)"
  shows "\<exists>gs'. handlePromotion gs t now = returns gs'
           \<and> cell (board gs') (fst (square pending)) (snd (square pending))
               = Inr (Some \<lparr>type = t, color = color p\<rparr>)
           \<and> currentPlayer gs' = (if currentPlayer gs = White then Black else White)
           \<and> promotionPending gs' = None
           \<and> selectedSquare gs' = None
           \<and> (\<exists>m. moves gs' = moves gs @ [m] \<and> piece m = p \<and> promotedTo m = Some t)"
proof -
  obtain toRow toCol where to: "square pending = (toRow, toCol)" by (cases "square pending")
  obtain fromRow fromCol where frm: "from = (fromRow, fromCol)" by (cases "from")
  have fr: "0 \<le> fromRow" "fromRow < int (length (board gs))" "0 \<le> fromCol"
    using cell_Some_in_range [OF pawn(1)] frm by simp_all
  have tr: "0 \<le> toRow" "toRow < int (length (board gs))" "0 \<le> toCol"
    using onBoard to by simp_all
  obtain y where y: "cell (board gs) toRow toCol = Inr y"
    using cell_row_ok [OF tr(1,2)] by blast
  define b1 where "b1 = (board gs)[nat fromRow := jsSet (board gs ! nat fromRow) (nat fromCol) None]"
  define b2 where "b2 = b1[nat toRow := jsSet (b1 ! nat toRow) (nat toCol) (Some p)]"
  define b3 where "b3 = b2[nat toRow := jsSet (b2 ! nat toRow) (nat toCol)
                                   (Some \<lparr>type = t, color = color p\<rparr>)]"
  have len: "length b1 = length (board gs)" "length b2 = length (board gs)"
    by (simp_all add: b1_def b2_def)
  have w1: "setCell (board gs) fromRow fromCol None = returns b1"
    unfolding b1_def by (rule setCell_ok [OF fr])
  have w2: "setCell b1 toRow toCol (Some p) = returns b2"
    unfolding b2_def using tr len by (intro setCell_ok) simp_all
  have w3: "setCell b2 toRow toCol (Some \<lparr>type = t, color = color p\<rparr>) = returns b3"
    unfolding b3_def using tr len by (intro setCell_ok) simp_all
  have r3: "cell b3 toRow toCol = Inr (Some \<lparr>type = t, color = color p\<rparr>)"
    unfolding b3_def using tr len by (intro cell_after_set) simp_all
  have notCastling: "\<not> isCastlingMove (fromRow, fromCol) (toRow, toCol) p"
    using pawn(2) by simp
  have notEnPassant: "\<not> isEnPassantMove (fromRow, fromCol) (toRow, toCol) p gs"
    using plain frm to by simp
  define m where
    "m = \<lparr>fromSq = (fromRow, fromCol), toSq = (toRow, toCol), piece = p,
           capturedPiece = y,
           moveNotation = generateMoveNotation (fromRow, fromCol) (toRow, toCol) p y
                             False False True (Some (typeName t)),
           timestamp = now, isCastling = False, isEnPassant = False,
           isPromotion = True, promotedTo = Some t\<rparr>"
  have m: "piece m = p" "promotedTo m = Some t"
    by (simp_all add: m_def)
  have "executeMove gs (fromRow, fromCol) (toRow, toCol) p (Some t) now
        = returns
            (gs\<lparr>board := b3,
                currentPlayer := (if currentPlayer gs = White then Black else White),
                selectedSquare := None,
                validMoves := [],
                moves := moves gs @ [m],
                capturedPieces :=
                  (case y of
                     None \<Rightarrow> capturedPieces gs
                   | Some cp \<Rightarrow>
                       if color cp = White
                       then (capturedPieces gs)\<lparr>black := black (capturedPieces gs) @ [cp]\<rparr>
                       else (capturedPieces gs)\<lparr>white := white (capturedPieces gs) @ [cp]\<rparr>),
                castlingRights := updateCastlingRights gs m,
                enPassantTarget := updateEnPassantTarget m,
                promotionPending := None\<rparr>)"
    using notCastling notEnPassant y w1 w2 w3
    by (simp add: executeMove_def readCell_def Let_def m_def
          del: isCastlingMove.simps isEnPassantMove.simps)
  then show ?thesis
    using pending sel pawn(1) frm to r3 m
    by (simp add: handlePromotion_def readCell_def)
qed

theorem handlePromotion_unchecked_witness:
  "promotionPending promotionWaiting = Some \<lparr>square = (0, 0), pendingColor = White\<rparr>
   \<and> selectedSquare promotionWaiting = Some (1, 0)
   \<and> (\<exists>gs'. handlePromotion promotionWaiting King 0 = returns gs'
          \<and> cell (board gs') 0 0 = Inr (Some \<lparr>type = King, color = White\<rparr>)
          \<and> currentPlayer gs' = Black
          \<and> promotionPending gs' = None)"
proof -
  have pending: "promotionPending promotionWaiting = Some \<lparr>square = (0, 0), pendingColor = White\<rparr>"
    and sel: "selectedSquare promotionWaiting = Some (1, 0)"
    and player: "currentPlayer promotionWaiting = White"
    by (simp_all add: promotionWaiting_def promotionReady_def createInitialGameState_def)
  have pawn: "cell (board promotionWaiting) (fst (1, 0)) (snd (1, 0))
                = Inr (Some \<lparr>type = Pawn, color = White\<rparr>)"
    by code_simp
  have plain: "\<not> isEnPassantMove (1, 0)
                   (square \<lparr>square = (0, 0), pendingColor = White\<rparr>)
                   \<lparr>type = Pawn, color = White\<rparr> promotionWaiting"
    by code_simp
  have len: "length (board promotionWaiting) = 8"
    by code_simp
  show ?thesis
    using handlePromotion_unchecked [OF pending sel pawn _ plain len, of King 0] pending sel player
    by auto
qed

text \<open>With the promotion of the pawn of (1, 0) pending on (0, 0), the request for a king
  and the request for a pawn are both carried out: the corner, empty before, holds the
  requested piece, black is to move and nothing is pending any more.\<close>

theorem handlePromotion_king_counterexample:
  "promotionPending promotionWaiting = Some \<lparr>square = (0, 0), pendingColor = White\<rparr>
   \<and> currentPlayer promotionWaiting = White
   \<and> boardCell (0, 0) promotionWaiting = Inr None
   \<and> map_option (map_sum id (boardCell (0, 0))) (handlePromotion promotionWaiting King 0)
       = returns (Inr (Some \<lparr>type = King, color = White\<rparr>))
   \<and> map_option (map_sum id currentPlayer) (handlePromotion promotionWaiting King 0)
       = returns Black
   \<and> map_option (map_sum id promotionPending) (handlePromotion promotionWaiting King 0)
       = returns None
   \<and> map_option (map_sum id (boardCell (0, 0))) (handlePromotion promotionWaiting Pawn 0)
       = returns (Inr (Some \<lparr>type = Pawn, color = White\<rparr>))
   \<and> map_option (map_sum id currentPlayer) (handlePromotion promotionWaiting Pawn 0)
       = returns Black
   \<and> map_option (map_sum id promotionPending) (handlePromotion promotionWaiting Pawn 0)
       = returns None"
  by code_simp

section \<open>Turns\<close>

lemma committed_iff:
  "committed gs gs' \<longleftrightarrow>
     (\<exists>m. moves gs' = moves gs @ [m] \<and> color (piece m) = currentPlayer gs
          \<and> currentPlayer gs' = (if currentPlayer gs = White then Black else White))"
proof
  assume c: "committed gs gs'"
  then have "moves gs' = moves gs @ [last (moves gs')]"
    by (metis append_butlast_last_id committed_def)
  with c show "\<exists>m. moves gs' = moves gs @ [m] \<and> color (piece m) = currentPlayer gs
          \<and> currentPlayer gs' = (if currentPlayer gs = White then Black else White)"
    unfolding committed_def by blast
next
  assume "\<exists>m. moves gs' = moves gs @ [m] \<and> color (piece m) = currentPlayer gs
          \<and> currentPlayer gs' = (if currentPlayer gs = White then Black else White)"
  then show "committed gs gs'"
    by (auto simp: committed_def)
qed

lemma executeMove_result:
  assumes "executeMove gs from to mp promoted now = returns gs'"
  shows "\<exists>m. moves gs' = moves gs @ [m] \<and> piece m = mp
            \<and> currentPlayer gs' = (if currentPlayer gs = White then Black else White)
            \<and> selectedSquare gs' = None"
  using assms
  by (auto simp: executeMove_def andThen_returns_iff Let_def split: prod.splits)

lemma selectPiece_result:
  assumes "selectPiece gs sq = returns gs'"
  shows "\<exists>found. gs' = gs\<lparr>selectedSquare := Some sq, validMoves := found\<rparr>"
  using assms by (auto simp: selectPiece_def andThen_returns_iff)

lemma handlePromotion_step:
  assumes own: "ownSelection gs" and step: "handlePromotion gs t now = returns gs'"
  shows "ownSelection gs' \<and> (sameTurn gs gs' \<or> committed gs gs')"
proof (cases "promotionPending gs")
  case None
  with step own show ?thesis by (simp add: handlePromotion_def sameTurn_def)
next
  case (Some pending)
  show ?thesis
  proof (cases "selectedSquare gs")
    case None
    with Some step own show ?thesis by (simp add: handlePromotion_def sameTurn_def)
  next
    case (Some selected)
    then obtain p where p: "cell (board gs) (fst selected) (snd selected) = Inr (Some p)"
        "color p = currentPlayer gs"
      using own by (auto simp: ownSelection_def split: sum.splits option.splits)
    with \<open>promotionPending gs = Some pending\<close> Some step
    have "executeMove gs selected (square pending) p (Some t) now = returns gs'"
      by (simp add: handlePromotion_def readCell_def)
    from executeMove_result [OF this] p(2) show ?thesis
      by (auto simp: ownSelection_def committed_iff)
  qed
qed

lemma handleSquareClick_step:
  assumes own: "ownSelection gs" and step: "handleSquareClick gs sq now = returns gs'"
  shows "ownSelection gs' \<and> (sameTurn gs gs' \<or> committed gs gs')"
proof -
  obtain clicked where clicked: "cell (board gs) (fst sq) (snd sq) = Inr clicked"
    using step by (auto simp: handleSquareClick_def readCell_def andThen_returns_iff)
  define ownPiece where
    "ownPiece = (case clicked of None \<Rightarrow> False | Some p \<Rightarrow> color p = currentPlayer gs)"
  have selecting: "ownSelection gs' \<and> sameTurn gs gs'"
    if "ownPiece" "selectPiece gs sq = returns gs'"
    using that selectPiece_result [OF that(2)] clicked
    by (auto simp: ownSelection_def sameTurn_def ownPiece_def split: option.splits)
  have clearing: "ownSelection gs' \<and> sameTurn gs gs'"
    if "gs' = gs\<lparr>selectedSquare := None, validMoves := []\<rparr>"
    using that by (simp add: ownSelection_def sameTurn_def)
  show ?thesis
  proof (cases "selectedSquare gs")
    case None
    with step clicked own selecting show ?thesis
      by (auto simp: handleSquareClick_def readCell_def Let_def ownPiece_def sameTurn_def
            split: if_splits)
  next
    case (Some selected)
    then obtain p where p: "cell (board gs) (fst selected) (snd selected) = Inr (Some p)"
        "color p = currentPlayer gs"
      using own by (auto simp: ownSelection_def split: sum.splits option.splits)
    show ?thesis
    proof (cases "isSameSquare selected sq")
      case True
      with Some step clicked clearing show ?thesis
        by (simp add: handleSquareClick_def readCell_def Let_def)
    next
      case False
      with Some step clicked obtain valid where
        valid: "isValidMove selected sq (board gs) (Some gs) = returns valid"
        by (auto simp: handleSquareClick_def readCell_def Let_def andThen_returns_iff)
      show ?thesis
      proof (cases valid)
        case True
        show ?thesis
        proof (cases "isPromotionMove selected sq p")
          case True
          with \<open>valid\<close> valid False Some step clicked p
          have "gs' = gs\<lparr>promotionPending := Some \<lparr>square = sq, pendingColor = color p\<rparr>\<rparr>"
            by (simp add: handleSquareClick_def readCell_def Let_def)
          with own Some p show ?thesis by (simp add: ownSelection_def sameTurn_def)
        next
          case notPromotion: False
          with \<open>valid\<close> valid False Some step clicked p
          have "executeMove gs selected sq p None now = returns gs'"
            by (simp add: handleSquareClick_def readCell_def Let_def)
          from executeMove_result [OF this] p(2) show ?thesis
            by (auto simp: ownSelection_def committed_iff)
        qed
      next
        case notValid: False
        with valid \<open>\<not> isSameSquare selected sq\<close> Some step clicked
        have "(ownPiece \<and> selectPiece gs sq = returns gs')
              \<or> gs' = gs\<lparr>selectedSquare := None, validMoves := []\<rparr>"
          by (auto simp: handleSquareClick_def readCell_def Let_def ownPiece_def
                split: if_splits)
        with selecting clearing show ?thesis by blast
      qed
    qed
  qed
qed

lemma step_cases:
  assumes own: "ownSelection gs" and step: "step gs a now = returns gs'"
  shows "ownSelection gs'
         \<and> (sameTurn gs gs' \<or> committed gs gs' \<or> gs' = createInitialGameState)"
proof (cases a)
  case (Click sq)
  with handleSquareClick_step [OF own, of sq now gs'] step show ?thesis by auto
next
  case (Promote t)
  with handlePromotion_step [OF own, of t now gs'] step show ?thesis by auto
next
  case CancelPromotion
  with step own show ?thesis
    by (auto simp: handlePromotionCancel_def ownSelection_def sameTurn_def)
next
  case NewGame
  with step show ?thesis
    by (auto simp: handleNewGame_def ownSelection_def createInitialGameState_def)
qed

lemma reachable_ownSelection_parity:
  assumes "reachable gs"
  shows "ownSelection gs
         \<and> (currentPlayer gs = White \<longleftrightarrow> even (length (moves gs)))
         \<and> (\<forall>i < length (moves gs).
               color (piece (moves gs ! i)) = (if even i then White else Black))"
  using assms
proof (induction rule: reachable.induct)
  case start
  show ?case by (simp add: ownSelection_def createInitialGameState_def)
next
  case (after gs a now gs')
  from step_cases [OF _ after.hyps(2)] after.IH
  have own: "ownSelection gs'"
    and cases: "sameTurn gs gs' \<or> committed gs gs' \<or> gs' = createInitialGameState"
    by simp_all
  from cases show ?case
  proof (elim disjE)
    assume "sameTurn gs gs'"
    with after.IH own show ?thesis by (simp add: sameTurn_def)
  next
    assume "committed gs gs'"
    then obtain m where m: "moves gs' = moves gs @ [m]" "color (piece m) = currentPlayer gs"
      "currentPlayer gs' = (if currentPlayer gs = White then Black else White)"
      by (auto simp: committed_iff)
    have mc: "color (piece m) = (if even (length (moves gs)) then White else Black)"
      using m(2) after.IH by (cases "currentPlayer gs") auto
    have "color (piece (moves gs' ! i)) = (if even i then White else Black)"
      if "i < length (moves gs')" for i
    proof (cases "i < length (moves gs)")
      case True
      with after.IH m(1) show ?thesis by (simp add: nth_append)
    next
      case False
      with that m(1) have "i = length (moves gs)" by simp
      with m(1) mc show ?thesis by simp
    qed
    moreover have "currentPlayer gs' = White \<longleftrightarrow> even (length (moves gs'))"
      using m(1,3) after.IH by auto
    ultimately show ?thesis using own by blast
  next
    assume "gs' = createInitialGameState"
    then show ?thesis by (simp add: ownSelection_def createInitialGameState_def)
  qed
qed

text \<open>C10: in every state reached from the initial one, the pieces moved in the history
  are white, black, white and so on, and white is to move exactly when the history has
  even length. Every action leaves history and player as they are, or starts a new game,
  or commits one move: then the piece moved has the colour of the player who was to move,
  and the other player is to move next.\<close>

theorem history_alternates:
  assumes "reachable gs"
  shows "(\<forall>i < length (moves gs).
            color (piece (moves gs ! i)) = (if even i then White else Black))
       \<and> (currentPlayer gs = White \<longleftrightarrow> even (length (moves gs)))
       \<and> (\<forall>a now gs'. step gs a now = returns gs' \<longrightarrow>
            sameTurn gs gs' \<or> committed gs gs' \<or> gs' = createInitialGameState)"
  using reachable_ownSelection_parity [OF assms] step_cases [of gs]
  by blast

lemma run_reachable:
  "reachable gs \<Longrightarrow> run gs actions = returns gs' \<Longrightarrow> reachable gs'"
proof (induction actions arbitrary: gs)
  case Nil
  then show ?case by simp
next
  case (Cons a actions)
  obtain act now where a: "a = (act, now)" by (cases a)
  from Cons.prems(2) a obtain gs1 where
    "step gs act now = returns gs1" "run gs1 actions = returns gs'"
    by (auto simp: andThen_returns_iff)
  with Cons.IH [of gs1] Cons.prems(1) show ?case
    by (blast intro: reachable.after)
qed

lemma reachable_after_run:
  "reachable (case run createInitialGameState actions of
                Some (Inr gs) \<Rightarrow> gs | _ \<Rightarrow> createInitialGameState)"
proof (cases "run createInitialGameState actions")
  case None
  then show ?thesis by (simp add: reachable.start)
next
  case (Some outcome)
  then show ?thesis
    by (cases outcome) (auto intro: reachable.start run_reachable)
qed

lemma afterThreeMoves_reachable: "reachable afterThreeMoves"
  unfolding afterThreeMoves_def by (rule reachable_after_run)

lemma afterThreeMoves_history:
  "map (color \<circ> piece) (moves afterThreeMoves) = [White, Black, White]"
  "currentPlayer afterThreeMoves = Black"
  by code_simp+

lemma pawnSelected_reachable: "reachable pawnSelected"
  unfolding pawnSelected_def by (rule reachable_after_run)

lemma pawnSelected_step:
  "\<exists>gs'. step pawnSelected (Click (4, 4)) 1 = returns gs'
         \<and> \<not> sameTurn pawnSelected gs' \<and> gs' \<noteq> createInitialGameState"
proof -
  have "isReturn (step pawnSelected (Click (4, 4)) 1)"
    by code_simp
  then obtain gs' where gs': "step pawnSelected (Click (4, 4)) 1 = returns gs'"
    by (auto simp: isReturn_iff)
  have "map_option (map_sum id (length \<circ> moves)) (step pawnSelected (Click (4, 4)) 1)
          = returns 1"
    and "length (moves pawnSelected) = 0"
    by code_simp+
  with gs' have "moves gs' \<noteq> moves pawnSelected" "moves gs' \<noteq> moves createInitialGameState"
    by (auto simp: createInitialGameState_def)
  with gs' show ?thesis
    by (auto simp: sameTurn_def)
qed

theorem history_alternates_witness:
  "reachable afterThreeMoves
   \<and> map (color \<circ> piece) (moves afterThreeMoves) = [White, Black, White]
   \<and> color (piece (moves afterThreeMoves ! 1)) = Black
   \<and> odd (length (moves afterThreeMoves))
   \<and> currentPlayer afterThreeMoves = Black
   \<and> reachable pawnSelected
   \<and> (\<exists>gs'. step pawnSelected (Click (4, 4)) 1 = returns gs' \<and> committed pawnSelected gs')"
proof -
  have len: "length (moves afterThreeMoves) = 3"
    using afterThreeMoves_history(1) [THEN arg_cong, of length] by simp
  from history_alternates [OF afterThreeMoves_reachable] len
  have "color (piece (moves afterThreeMoves ! 1)) = Black"
    and "odd (length (moves afterThreeMoves))"
    by simp_all
  moreover have "\<exists>gs'. step pawnSelected (Click (4, 4)) 1 = returns gs'
                      \<and> committed pawnSelected gs'"
    using history_alternates [OF pawnSelected_reachable] pawnSelected_step by blast
  ultimately show ?thesis
    using afterThreeMoves_reachable pawnSelected_reachable afterThreeMoves_history by simp
qed

section \<open>The en passant window\<close>

lemma setCell_length: "setCell b r c v = returns b' \<Longrightarrow> length b' = length b"
  by (auto simp: setCell_def split: if_splits)

lemma andThen_setCell_length:
  assumes "andThen (setCell b0 r c v) f = returns x"
  obtains b1 where "length b1 = length b0" "f b1 = returns x"
  using assms by (auto simp: andThen_returns_iff dest: setCell_length)

lemma andThen_readCell:
  assumes "andThen (readCell b0 r c) f = returns x"
  obtains y where "cell b0 r c = Inr y" "f y = returns x"
  using assms by (auto simp: readCell_def andThen_def split: sum.splits)

lemma move_rook_length:
  assumes "andThen (readCell b2 r c) (\<lambda>rook.
           andThen (setCell b2 r c None) (\<lambda>b3. setCell b3 r c' rook)) = returns b'"
  shows "length b' = length b2"
proof -
  from assms obtain rook where
    "andThen (setCell b2 r c None) (\<lambda>b3. setCell b3 r c' rook) = returns b'"
    by (rule andThen_readCell)
  then obtain b3 where "length b3 = length b2" "setCell b3 r c' rook = returns b'"
    by (rule andThen_setCell_length)
  then show ?thesis using setCell_length [of b3 r c' rook b'] by simp
qed

lemma executeCastling_length:
  assumes "executeCastling b from to = returns b'"
  shows "length b' = length b"
proof -
  obtain fromRow fromCol toRow toCol where sq: "from = (fromRow, fromCol)" "to = (toRow, toCol)"
    by (cases "from"; cases to) blast
  from assms sq have
    "andThen (readCell b fromRow fromCol) (\<lambda>king.
       if king = None then returns b
       else
         andThen (setCell b fromRow fromCol None) (\<lambda>b1.
         andThen (setCell b1 fromRow toCol king) (\<lambda>b2.
           if toCol = 6
           then andThen (readCell b2 fromRow 7) (\<lambda>rook.
                andThen (setCell b2 fromRow 7 None) (\<lambda>b3.
                  setCell b3 fromRow 5 rook))
           else if toCol = 2
           then andThen (readCell b2 fromRow 0) (\<lambda>rook.
                andThen (setCell b2 fromRow 0 None) (\<lambda>b3.
                  setCell b3 fromRow 3 rook))
           else returns b2))) = returns b'"
    by simp
  then obtain king where
    rest: "(if king = None then returns b
           else
             andThen (setCell b fromRow fromCol None) (\<lambda>b1.
             andThen (setCell b1 fromRow toCol king) (\<lambda>b2.
               if toCol = 6
               then andThen (readCell b2 fromRow 7) (\<lambda>rook.
                    andThen (setCell b2 fromRow 7 None) (\<lambda>b3.
                      setCell b3 fromRow 5 rook))
               else if toCol = 2
               then andThen (readCell b2 fromRow 0) (\<lambda>rook.
                    andThen (setCell b2 fromRow 0 None) (\<lambda>b3.
                      setCell b3 fromRow 3 rook))
               else returns b2))) = returns b'"
    by (rule andThen_readCell)
  show ?thesis
  proof (cases "king = None")
    case True
    with rest show ?thesis by simp
  next
    case False
    with rest have
      "andThen (setCell b fromRow fromCol None) (\<lambda>b1.
         andThen (setCell b1 fromRow toCol king) (\<lambda>b2.
               if toCol = 6
               then andThen (readCell b2 fromRow 7) (\<lambda>rook.
                    andThen (setCell b2 fromRow 7 None) (\<lambda>b3.
                      setCell b3 fromRow 5 rook))
               else if toCol = 2
               then andThen (readCell b2 fromRow 0) (\<lambda>rook.
                    andThen (setCell b2 fromRow 0 None) (\<lambda>b3.
                      setCell b3 fromRow 3 rook))
               else returns b2)) = returns b'"
      by simp
    then obtain b1 where b1: "length b1 = length b"
      and r1: "andThen (setCell b1 fromRow toCol king) (\<lambda>b2.
               if toCol = 6
               then andThen (readCell b2 fromRow 7) (\<lambda>rook.
                    andThen (setCell b2 fromRow 7 None) (\<lambda>b3.
                      setCell b3 fromRow 5 rook))
               else if toCol = 2
               then andThen (readCell b2 fromRow 0) (\<lambda>rook.
                    andThen (setCell b2 fromRow 0 None) (\<lambda>b3.
                      setCell b3 fromRow 3 rook))
               else returns b2) = returns b'"
      by (rule andThen_setCell_length)
    from r1 obtain b2 where b2: "length b2 = length b1"
      and r2: "(if toCol = 6
               then andThen (readCell b2 fromRow 7) (\<lambda>rook.
                    andThen (setCell b2 fromRow 7 None) (\<lambda>b3.
                      setCell b3 fromRow 5 rook))
               else if toCol = 2
               then andThen (readCell b2 fromRow 0) (\<lambda>rook.
                    andThen (setCell b2 fromRow 0 None) (\<lambda>b3.
                      setCell b3 fromRow 3 rook))
               else returns b2) = returns b'"
      by (rule andThen_setCell_length)
    have "length b' = length b2"
    proof (cases "toCol = 6")
      case True
      with r2 show ?thesis by (intro move_rook_length [of b2 fromRow 7 5 b']) simp
    next
      case notSix: False
      show ?thesis
      proof (cases "toCol = 2")
        case True
        with notSix r2 show ?thesis by (intro move_rook_length [of b2 fromRow 0 3 b']) simp
      next
        case False
        with notSix r2 show ?thesis by simp
      qed
    qed
    with b1 b2 show ?thesis by simp
  qed
qed

lemma executeEnPassant_length:
  assumes "executeEnPassant b from to p = returns (b', captured)"
  shows "length b' = length b"
proof -
  obtain fromRow fromCol toRow toCol where sq: "from = (fromRow, fromCol)" "to = (toRow, toCol)"
    by (cases "from"; cases to) blast
  define capturedPawnRow where
    "capturedPawnRow = (if color p = White then toRow + 1 else toRow - 1)"
  from assms sq have
    "andThen (setCell b fromRow fromCol None) (\<lambda>b1.
     andThen (setCell b1 toRow toCol (Some p)) (\<lambda>b2.
       andThen (readCell b2 capturedPawnRow toCol) (\<lambda>captured.
       andThen (setCell b2 capturedPawnRow toCol None) (\<lambda>b3.
         returns (b3, captured))))) = returns (b', captured)"
    by (simp add: Let_def capturedPawnRow_def)
  then obtain b1 where b1: "length b1 = length b"
    and e1: "andThen (setCell b1 toRow toCol (Some p)) (\<lambda>b2.
       andThen (readCell b2 capturedPawnRow toCol) (\<lambda>captured.
       andThen (setCell b2 capturedPawnRow toCol None) (\<lambda>b3.
         returns (b3, captured)))) = returns (b', captured)"
    by (rule andThen_setCell_length)
  from e1 obtain b2 where b2: "length b2 = length b1"
    and e2: "andThen (readCell b2 capturedPawnRow toCol) (\<lambda>captured.
       andThen (setCell b2 capturedPawnRow toCol None) (\<lambda>b3.
         returns (b3, captured))) = returns (b', captured)"
    by (rule andThen_setCell_length)
  from e2 obtain y where
    e3: "andThen (setCell b2 capturedPawnRow toCol None) (\<lambda>b3. returns (b3, y))
       = returns (b', captured)"
    by (rule andThen_readCell)
  from e3 obtain b3 where "length b3 = length b2" "returns (b3, y) = returns (b', captured)"
    by (rule andThen_setCell_length)
  with b1 b2 show ?thesis by simp
qed

lemma regularMove_length:
  assumes "andThen (setCell b r c None) (\<lambda>b1.
           andThen (setCell b1 r' c' (Some mp)) (\<lambda>b2.
             (case promoted of
                None \<Rightarrow> returns (b2, target)
              | Some t \<Rightarrow>
                  andThen (setCell b2 r' c' (Some \<lparr>type = t, color = color mp\<rparr>))
                    (\<lambda>b3. returns (b3, target))))) = returns (nb, captured)"
  shows "length nb = length b"
proof -
  from assms obtain b1 where b1: "length b1 = length b"
    and g1: "andThen (setCell b1 r' c' (Some mp)) (\<lambda>b2.
             (case promoted of
                None \<Rightarrow> returns (b2, target)
              | Some t \<Rightarrow>
                  andThen (setCell b2 r' c' (Some \<lparr>type = t, color = color mp\<rparr>))
                    (\<lambda>b3. returns (b3, target)))) = returns (nb, captured)"
    by (rule andThen_setCell_length)
  from g1 obtain b2 where b2: "length b2 = length b1"
    and r: "(case promoted of
                None \<Rightarrow> returns (b2, target)
              | Some t \<Rightarrow>
                  andThen (setCell b2 r' c' (Some \<lparr>type = t, color = color mp\<rparr>))
                    (\<lambda>b3. returns (b3, target))) = returns (nb, captured)"
    by (rule andThen_setCell_length)
  have "length nb = length b2"
  proof (cases promoted)
    case None
    with r show ?thesis by simp
  next
    case (Some t)
    with r have "andThen (setCell b2 r' c' (Some \<lparr>type = t, color = color mp\<rparr>))
                    (\<lambda>b3. returns (b3, target)) = returns (nb, captured)"
      by simp
    then obtain b3 where "length b3 = length b2" "returns (b3, target) = returns (nb, captured)"
      by (rule andThen_setCell_length)
    then show ?thesis by simp
  qed
  with b1 b2 show ?thesis by simp
qed


lemma executeMove_record:
  assumes "executeMove gs from to mp promoted now = returns gs'"
  shows "\<exists>m. moves gs' = moves gs @ [m] \<and> fromSq m = from \<and> toSq m = to \<and> piece m = mp
            \<and> enPassantTarget gs' = updateEnPassantTarget m
            \<and> length (board gs') = length (board gs)
            \<and> promotionPending gs' = None \<and> selectedSquare gs' = None
            \<and> currentPlayer gs' = (if currentPlayer gs = White then Black else White)
            \<and> (\<exists>y. cell (board gs) (fst to) (snd to) = Inr y)"
proof -
  from assms obtain target nb captured where
    target: "cell (board gs) (fst to) (snd to) = Inr target"
    and nb: "(if isCastlingMove from to mp
              then andThen (executeCastling (board gs) from to) (\<lambda>nb. returns (nb, target))
              else if isEnPassantMove from to mp gs
              then executeEnPassant (board gs) from to mp
              else
                andThen (setCell (board gs) (fst from) (snd from) None) (\<lambda>b1.
                andThen (setCell b1 (fst to) (snd to) (Some mp)) (\<lambda>b2.
                  (case promoted of
                     None \<Rightarrow> returns (b2, target)
                   | Some t \<Rightarrow>
                       andThen
                         (setCell b2 (fst to) (snd to)
                            (Some \<lparr>type = t, color = color mp\<rparr>))
                         (\<lambda>b3. returns (b3, target)))))) = returns (nb, captured)"
    and board: "board gs' = nb"
    and rest: "\<exists>m. moves gs' = moves gs @ [m] \<and> fromSq m = from \<and> toSq m = to \<and> piece m = mp
            \<and> enPassantTarget gs' = updateEnPassantTarget m
            \<and> promotionPending gs' = None \<and> selectedSquare gs' = None
            \<and> currentPlayer gs' = (if currentPlayer gs = White then Black else White)"
    by (auto simp: executeMove_def andThen_returns_iff readCell_def Let_def split: prod.splits)
  have "length nb = length (board gs)"
  proof (cases "isCastlingMove from to mp")
    case True
    with nb obtain b' where "executeCastling (board gs) from to = returns b'" "b' = nb"
      by (auto simp: andThen_returns_iff)
    then show ?thesis using executeCastling_length by blast
  next
    case notCastling: False
    show ?thesis
    proof (cases "isEnPassantMove from to mp gs")
      case True
      with notCastling nb show ?thesis using executeEnPassant_length by simp
    next
      case False
      with notCastling nb show ?thesis using regularMove_length by simp
    qed
  qed
  with target board rest show ?thesis by auto
qed

lemma isValidMove_pawn_rows:
  assumes "isValidMove from to b gs = returns True"
    and "cell b (fst from) (snd from) = Inr (Some p)" "type p = Pawn"
  shows "fst to = fst from + pawnDirection (color p)
         \<or> fst to = fst from + 2 * pawnDirection (color p)"
proof -
  from assms have "isValidPawnMove from to (color p) b gs = returns True"
    by (auto simp: isValidMove_def split: sum.splits option.splits if_splits)
  then show ?thesis
    by (cases "from"; cases to)
      (auto simp: andThen_returns_iff pawnDirection_def Let_def split: if_splits)
qed

lemma cell_Inr_in_range: "cell b r c = Inr y \<Longrightarrow> 0 \<le> r \<and> r < int (length b)"
  by (auto simp: cell_def split: if_splits)

lemma handleSquareClick_outcomes:
  assumes step: "handleSquareClick gs sq now = returns gs'"
  shows "gs' = gs\<lparr>selectedSquare := None, validMoves := []\<rparr>
       \<or> gs' = gs
       \<or> (\<exists>found p. cell (board gs) (fst sq) (snd sq) = Inr (Some p)
               \<and> color p = currentPlayer gs
               \<and> gs' = gs\<lparr>selectedSquare := Some sq, validMoves := found\<rparr>)
       \<or> (\<exists>selected p. selectedSquare gs = Some selected
               \<and> cell (board gs) (fst selected) (snd selected) = Inr (Some p)
               \<and> isValidMove selected sq (board gs) (Some gs) = returns True
               \<and> ((isPromotionMove selected sq p
                     \<and> gs' = gs\<lparr>promotionPending :=
                                   Some \<lparr>square = sq, pendingColor = color p\<rparr>\<rparr>)
                    \<or> executeMove gs selected sq p None now = returns gs'))"
proof -
  obtain clicked where clicked: "cell (board gs) (fst sq) (snd sq) = Inr clicked"
    using step by (auto simp: handleSquareClick_def readCell_def andThen_returns_iff)
  define ownPiece where
    "ownPiece = (case clicked of None \<Rightarrow> False | Some p \<Rightarrow> color p = currentPlayer gs)"
  have selecting: ?thesis if "ownPiece" "selectPiece gs sq = returns gs'"
  proof -
    from that(1) obtain p where "clicked = Some p" "color p = currentPlayer gs"
      by (auto simp: ownPiece_def split: option.splits)
    with clicked selectPiece_result [OF that(2)] show ?thesis by blast
  qed
  show ?thesis
  proof (cases "selectedSquare gs")
    case None
    with step clicked have "(ownPiece \<and> selectPiece gs sq = returns gs') \<or> gs' = gs"
      by (auto simp: handleSquareClick_def readCell_def Let_def ownPiece_def split: if_splits)
    with selecting show ?thesis by blast
  next
    case (Some selected)
    show ?thesis
    proof (cases "isSameSquare selected sq")
      case True
      with Some step clicked show ?thesis
        by (simp add: handleSquareClick_def readCell_def Let_def)
    next
      case False
      with Some step clicked obtain valid where
        valid: "isValidMove selected sq (board gs) (Some gs) = returns valid"
        by (auto simp: handleSquareClick_def readCell_def Let_def andThen_returns_iff)
      show ?thesis
      proof (cases valid)
        case True
        with valid have vt: "isValidMove selected sq (board gs) (Some gs) = returns True"
          by simp
        from isValidMove_True_cells [OF this] obtain p where
          p: "cell (board gs) (fst selected) (snd selected) = Inr (Some p)"
          by blast
        from True valid False Some step clicked p
        have "(isPromotionMove selected sq p
                 \<and> gs' = gs\<lparr>promotionPending :=
                               Some \<lparr>square = sq, pendingColor = color p\<rparr>\<rparr>)
              \<or> executeMove gs selected sq p None now = returns gs'"
          by (cases "isPromotionMove selected sq p")
            (simp_all add: handleSquareClick_def readCell_def Let_def)
        with Some p vt show ?thesis by blast
      next
        case notValid: False
        with valid \<open>\<not> isSameSquare selected sq\<close> Some step clicked
        have "(ownPiece \<and> selectPiece gs sq = returns gs')
              \<or> gs' = gs\<lparr>selectedSquare := None, validMoves := []\<rparr>"
          by (auto simp: handleSquareClick_def readCell_def Let_def ownPiece_def
                split: if_splits)
        with selecting show ?thesis by blast
      qed
    qed
  qed
qed

lemma handlePromotion_outcomes:
  assumes step: "handlePromotion gs t now = returns gs'"
  shows "gs' = gs
       \<or> (\<exists>pending selected p. promotionPending gs = Some pending
               \<and> selectedSquare gs = Some selected
               \<and> cell (board gs) (fst selected) (snd selected) = Inr (Some p)
               \<and> executeMove gs selected (square pending) p (Some t) now = returns gs')"
  using step
  by (auto simp: handlePromotion_def readCell_def andThen_def
        split: option.splits sum.splits)

lemma targetAsClaimed_forward:
  assumes rows: "0 \<le> fst (fromSq m)" "fst (fromSq m) < 8" "0 \<le> fst (toSq m)" "fst (toSq m) < 8"
    and forward: "type (piece m) = Pawn \<Longrightarrow> \<bar>fst (fromSq m) - fst (toSq m)\<bar> = 2 \<Longrightarrow>
                  fst (toSq m) = fst (fromSq m) + 2 * pawnDirection (color (piece m))"
  shows "targetAsClaimed m"
proof (cases "twoRankAdvance m")
  case True
  then have "\<bar>fst (fromSq m) - fst (toSq m)\<bar> = 2"
    and "(fst (fromSq m) + fst (toSq m)) div 2
          = fst (fromSq m) + pawnDirection (color (piece m))"
    by (auto simp: twoRankAdvance_def pawnDirection_def)
  with True rows show ?thesis
    by (simp add: targetAsClaimed_def updateEnPassantTarget_value squarePassedOver_def
          twoRankAdvance_def)
next
  case False
  with forward have "\<not> (type (piece m) = Pawn \<and> \<bar>fst (fromSq m) - fst (toSq m)\<bar> = 2)"
    by (auto simp: twoRankAdvance_def)
  with False rows show ?thesis
    by (simp add: targetAsClaimed_def updateEnPassantTarget_value)
qed

lemma windowInvariant_commit:
  assumes inv: "windowInvariant gs"
    and ex: "executeMove gs from to p promoted now = returns gs'"
    and p: "cell (board gs) (fst from) (snd from) = Inr (Some p)"
    and forward: "type p = Pawn \<Longrightarrow> \<bar>fst from - fst to\<bar> = 2 \<Longrightarrow>
                  fst to = fst from + 2 * pawnDirection (color p)"
  shows "windowInvariant gs'"
proof -
  from executeMove_record [OF ex] obtain m y where
    m: "moves gs' = moves gs @ [m]" "fromSq m = from" "toSq m = to" "piece m = p"
    and target: "enPassantTarget gs' = updateEnPassantTarget m"
    and len: "length (board gs') = length (board gs)"
    and cleared: "promotionPending gs' = None" "selectedSquare gs' = None"
    and y: "cell (board gs) (fst to) (snd to) = Inr y"
    by blast
  have eight: "length (board gs) = 8"
    using inv by (simp add: windowInvariant_def)
  have rows: "0 \<le> fst from" "fst from < 8" "0 \<le> fst to" "fst to < 8"
    using cell_Some_in_range [OF p] cell_Inr_in_range [OF y] eight by simp_all
  have "targetAsClaimed m"
    using rows forward m by (intro targetAsClaimed_forward) simp_all
  with inv m target len cleared eight show ?thesis
    by (simp add: windowInvariant_def ownSelection_def pendingOnLastRank_def
          lastMoveTarget_def)
qed

lemma windowInvariant_click:
  assumes inv: "windowInvariant gs" and step: "handleSquareClick gs sq now = returns gs'"
  shows "windowInvariant gs'"
proof -
  from handleSquareClick_outcomes [OF step]
  consider (clear) "gs' = gs\<lparr>selectedSquare := None, validMoves := []\<rparr>"
    | (same) "gs' = gs"
    | (select) found p where "cell (board gs) (fst sq) (snd sq) = Inr (Some p)"
        "color p = currentPlayer gs" "gs' = gs\<lparr>selectedSquare := Some sq, validMoves := found\<rparr>"
    | (move) selected p where "selectedSquare gs = Some selected"
        "cell (board gs) (fst selected) (snd selected) = Inr (Some p)"
        "isValidMove selected sq (board gs) (Some gs) = returns True"
        "(isPromotionMove selected sq p
            \<and> gs' = gs\<lparr>promotionPending := Some \<lparr>square = sq, pendingColor = color p\<rparr>\<rparr>)
         \<or> executeMove gs selected sq p None now = returns gs'"
    by blast
  then show ?thesis
  proof cases
    case clear
    with inv show ?thesis
      by (auto simp: windowInvariant_def ownSelection_def pendingOnLastRank_def
            split: option.splits sum.splits)
  next
    case same
    with inv show ?thesis by simp
  next
    case select
    with inv show ?thesis
      by (auto simp: windowInvariant_def ownSelection_def pendingOnLastRank_def
            split: option.splits sum.splits)
  next
    case move
    have own: "color p = currentPlayer gs"
      using inv move(1,2) by (simp add: windowInvariant_def ownSelection_def)
    from move(4) show ?thesis
    proof
      assume pending: "isPromotionMove selected sq p
            \<and> gs' = gs\<lparr>promotionPending := Some \<lparr>square = sq, pendingColor = color p\<rparr>\<rparr>"
      then have "fst sq = (if currentPlayer gs = White then 0 else 7)"
        using own by (cases sq; cases "color p") (auto split: if_splits)
      with pending inv move(1,2) show ?thesis
        by (auto simp: windowInvariant_def ownSelection_def pendingOnLastRank_def
            split: option.splits sum.splits)
    next
      assume ex: "executeMove gs selected sq p None now = returns gs'"
      show ?thesis
      proof (rule windowInvariant_commit [OF inv ex move(2)])
        assume "type p = Pawn" "\<bar>fst selected - fst sq\<bar> = 2"
        with isValidMove_pawn_rows [OF move(3) move(2)]
        show "fst sq = fst selected + 2 * pawnDirection (color p)"
          by (auto simp: pawnDirection_def split: if_splits)
      qed
    qed
  qed
qed

lemma windowInvariant_promote:
  assumes inv: "windowInvariant gs" and step: "handlePromotion gs t now = returns gs'"
  shows "windowInvariant gs'"
proof -
  from handlePromotion_outcomes [OF step]
  consider (same) "gs' = gs"
    | (move) pending selected p where "promotionPending gs = Some pending"
        "selectedSquare gs = Some selected"
        "cell (board gs) (fst selected) (snd selected) = Inr (Some p)"
        "executeMove gs selected (square pending) p (Some t) now = returns gs'"
    by blast
  then show ?thesis
  proof cases
    case same
    with inv show ?thesis by simp
  next
    case move
    have own: "color p = currentPlayer gs"
      using inv move(2,3) by (simp add: windowInvariant_def ownSelection_def)
    have last: "fst (square pending) = (if color p = White then 0 else 7)"
      using inv move(1) own by (simp add: windowInvariant_def pendingOnLastRank_def)
    have rows: "0 \<le> fst selected" "fst selected < 8"
      using cell_Some_in_range [OF move(3)] inv by (simp_all add: windowInvariant_def)
    show ?thesis
    proof (rule windowInvariant_commit [OF inv move(4) move(3)])
      assume "type p = Pawn" "\<bar>fst selected - fst (square pending)\<bar> = 2"
      with last rows show "fst (square pending) = fst selected + 2 * pawnDirection (color p)"
        by (auto simp: pawnDirection_def split: if_splits)
    qed
  qed
qed

lemma windowInvariant_step:
  assumes inv: "windowInvariant gs" and step: "step gs a now = returns gs'"
  shows "windowInvariant gs'"
proof (cases a)
  case (Click sq)
  with windowInvariant_click [OF inv, of sq now gs'] step show ?thesis by simp
next
  case (Promote t)
  with windowInvariant_promote [OF inv, of t now gs'] step show ?thesis by simp
next
  case CancelPromotion
  with step inv show ?thesis
    by (auto simp: handlePromotionCancel_def windowInvariant_def ownSelection_def
          pendingOnLastRank_def split: option.splits sum.splits)
next
  case NewGame
  with step boardIs8x8_initial show ?thesis
    by (auto simp: handleNewGame_def windowInvariant_def ownSelection_def
          pendingOnLastRank_def lastMoveTarget_def createInitialGameState_def boardIs8x8_def)
qed

lemma reachable_windowInvariant: "reachable gs \<Longrightarrow> windowInvariant gs"
proof (induction rule: reachable.induct)
  case start
  show ?case
    using boardIs8x8_initial
    by (simp add: windowInvariant_def ownSelection_def pendingOnLastRank_def
          lastMoveTarget_def createInitialGameState_def boardIs8x8_def)
next
  case (after gs a now gs')
  then show ?case by (blast intro: windowInvariant_step)
qed

text \<open>C7: for every move recorded in the history of a game (every state reached from the
  initial one), \<open>updateEnPassantTarget\<close> returns the square passed over, the square between
  origin and destination in the column of arrival, exactly when the move is a pawn advance
  of two ranks, and none for every other move; the rows of a recorded move are rows of
  the board. The en passant target of a state is what this function gives for the last
  move of the history, so it is set exactly when the move just made is a pawn advance of
  two ranks: the window is one ply wide.\<close>

theorem enPassant_target_of_recorded_moves:
  assumes "reachable gs"
  shows "(\<forall>m \<in> set (moves gs).
            0 \<le> fst (fromSq m) \<and> fst (fromSq m) < 8 \<and> 0 \<le> fst (toSq m) \<and> fst (toSq m) < 8
            \<and> updateEnPassantTarget m
                = (if twoRankAdvance m then Some (squarePassedOver m) else None))
       \<and> enPassantTarget gs
           = (if moves gs = [] then None else updateEnPassantTarget (last (moves gs)))
       \<and> (enPassantTarget gs \<noteq> None \<longleftrightarrow> moves gs \<noteq> [] \<and> twoRankAdvance (last (moves gs)))"
proof -
  from reachable_windowInvariant [OF assms]
  have claimed: "\<forall>m \<in> set (moves gs). targetAsClaimed m"
    and target: "enPassantTarget gs = lastMoveTarget (moves gs)"
    by (simp_all add: windowInvariant_def list_all_iff)
  have "enPassantTarget gs \<noteq> None \<longleftrightarrow> moves gs \<noteq> [] \<and> twoRankAdvance (last (moves gs))"
  proof (cases "moves gs = []")
    case True
    with target show ?thesis by (simp add: lastMoveTarget_def)
  next
    case False
    then have "targetAsClaimed (last (moves gs))"
      using claimed by simp
    with False target show ?thesis
      by (simp add: lastMoveTarget_def targetAsClaimed_def)
  qed
  with claimed target show ?thesis
    by (simp add: targetAsClaimed_def lastMoveTarget_def)
qed

lemma afterDoubleThenSingle_reachable: "reachable afterDoubleThenSingle"
  unfolding afterDoubleThenSingle_def by (rule reachable_after_run)

theorem enPassant_target_of_recorded_moves_witness:
  "reachable afterThreeMoves
   \<and> map updateEnPassantTarget (moves afterThreeMoves) = [None, None, Some (5, 5)]
   \<and> enPassantTarget afterThreeMoves = Some (5, 5)
   \<and> twoRankAdvance (last (moves afterThreeMoves))
   \<and> reachable afterDoubleThenSingle
   \<and> map updateEnPassantTarget (moves afterDoubleThenSingle) = [Some (5, 4), None]
   \<and> enPassantTarget afterDoubleThenSingle = None"
proof -
  note three = enPassant_target_of_recorded_moves [OF afterThreeMoves_reachable]
  note two = enPassant_target_of_recorded_moves [OF afterDoubleThenSingle_reachable]
  have targets:
    "map updateEnPassantTarget (moves afterThreeMoves) = [None, None, Some (5, 5)]"
    "map updateEnPassantTarget (moves afterDoubleThenSingle) = [Some (5, 4), None]"
    by code_simp+
  have set3: "enPassantTarget afterThreeMoves = Some (5, 5)"
    by code_simp
  with three [THEN conjunct2, THEN conjunct2]
  have advance: "twoRankAdvance (last (moves afterThreeMoves))"
    by simp
  have "moves afterDoubleThenSingle \<noteq> []"
    using targets(2) by auto
  moreover have "updateEnPassantTarget (last (moves afterDoubleThenSingle)) = None"
    by code_simp
  ultimately have "enPassantTarget afterDoubleThenSingle = None"
    using two [THEN conjunct2, THEN conjunct1] by simp
  with targets set3 advance afterThreeMoves_reachable afterDoubleThenSingle_reachable
  show ?thesis by simp
qed

end
